theory Spec2Isabelle
  imports Main
begin

section \<open>The animation job orchestrator of \<^verbatim>\<open>POST /generate-animation\<close>\<close>

text \<open>
  The repository holds two variants of the same handler. \<^verbatim>\<open>src/server.js\<close> reads
  \<^verbatim>\<open>mode\<close> and \<^verbatim>\<open>resolution\<close> from the record, downloads the finished video and stores
  it as a one-element attachment list. \<^verbatim>\<open>src/unnamed/part_000\<close> fixes
  \<^verbatim>\<open>mode = 'animate'\<close> and \<^verbatim>\<open>resolution = '720p'\<close> and stores the bare URL. Everything
  else is line for line the same, so one model takes the variant as a parameter.

  The handler talks to three collaborators: the record store (\<^verbatim>\<open>find\<close>, \<^verbatim>\<open>update\<close>),
  the generation API (submit, poll) and the clock. Their answers are collected in a
  \<open>world\<close>; the handler is a function from the world to the list of calls it issues,
  each with the answer it got, and to the error caught by the top-level \<^verbatim>\<open>catch\<close>.
  \<^verbatim>\<open>console.log\<close> output is not modelled.
\<close>

datatype variant = ServerJs | Part000

subsection \<open>JavaScript values\<close>

text \<open>
  A value placed in a request object: \<^verbatim>\<open>undefined\<close>, a string, a number, or the
  attachment list \<^verbatim>\<open>[{url: u}, ...]\<close> given by its URLs.
\<close>

datatype jsval = JUndefined | JStr string | JNum int | JAttachments "string list"

text \<open>An object literal, as its key-value pairs in source order.\<close>

type_synonym obj = "(string \<times> jsval) list"

definition keys :: "obj \<Rightarrow> string set" where
  "keys f = fst ` set f"

text \<open>A possibly-\<^verbatim>\<open>undefined\<close> string is a \<open>string option\<close>.\<close>

definition str_val :: "string option \<Rightarrow> jsval" where
  "str_val x = (case x of None \<Rightarrow> JUndefined | Some s \<Rightarrow> JStr s)"

text \<open>\<^verbatim>\<open>!x\<close> is false exactly for a non-empty string.\<close>

definition truthy :: "string option \<Rightarrow> bool" where
  "truthy x = (case x of None \<Rightarrow> False | Some s \<Rightarrow> s \<noteq> [])"

text \<open>\<^verbatim>\<open>x || d\<close> on a possibly-\<^verbatim>\<open>undefined\<close> string.\<close>

definition or_else :: "string option \<Rightarrow> string \<Rightarrow> string" where
  "or_else x d = (case x of None \<Rightarrow> d | Some s \<Rightarrow> if s \<noteq> [] then s else d)"

text \<open>\<^verbatim>\<open>`${x}`\<close> on a possibly-\<^verbatim>\<open>undefined\<close> string.\<close>

definition show_str :: "string option \<Rightarrow> string" where
  "show_str x = (case x of None \<Rightarrow> ''undefined'' | Some s \<Rightarrow> s)"

text \<open>\<^verbatim>\<open>`${n}`\<close> on an integer-valued number.\<close>

fun show_nat :: "nat \<Rightarrow> string" where
  "show_nat n =
     (if n < 10 then [''0123456789'' ! n]
      else show_nat (n div 10) @ [''0123456789'' ! (n mod 10)])"

declare show_nat.simps [simp del]

definition show_int :: "int \<Rightarrow> string" where
  "show_int i = (if i < 0 then ''-'' @ show_nat (nat (- i)) else show_nat (nat i))"

definition nl :: string where
  "nl = [CHR 0x0A]"

subsection \<open>The record and the responses\<close>

record attachment =
  url :: "string option"

text \<open>\<^verbatim>\<open>record.fields\<close>: a field that the store does not return is \<open>None\<close>.\<close>

record record_fields =
  input_image :: "attachment list option"
  input_video :: "attachment list option"
  prompt :: "string option"
  mode :: "string option"
  resolution :: "string option"
  seed :: "int option"

text \<open>
  The submission response: \<^verbatim>\<open>submitResponse.ok\<close> and the parsed body
  \<^verbatim>\<open>{code, message, data: {id}}\<close>, each member possibly absent. The bodies of both
  responses are taken to be JSON objects whose members, when present, have the documented
  types (numbers are integers); a body that is \<^verbatim>\<open>null\<close> or not an object is outside
  the model.
\<close>

record submit_data =
  sd_id :: "string option"

record submit_body =
  sb_code :: "int option"
  sb_message :: "string option"
  sb_data :: "submit_data option"

record submit_response =
  sr_ok :: bool
  sr_body :: submit_body

text \<open>The poll response body \<^verbatim>\<open>{data: {status, outputs, error}}\<close>.\<close>

record poll_data =
  pd_status :: "string option"
  pd_outputs :: "string list option"
  pd_error :: "string option"

record poll_body =
  pb_data :: "poll_data option"

subsection \<open>Errors\<close>

text \<open>
  The source throws plain \<^verbatim>\<open>Error\<close> objects told apart by their message only. The
  constructors name the throw sites after the error kinds of the specification:
  \<open>ValidationError\<close> for the two missing-input throws, \<open>SubmissionError\<close> for
  \<^verbatim>\<open>API error: ...\<close>, \<open>ResultError\<close> for \<^verbatim>\<open>No video URL in completed response\<close>,
  \<open>GenerationFailedError\<close> for \<^verbatim>\<open>Generation failed: ...\<close>, \<open>TimeoutError\<close> for the
  throw after the loop. \<open>TypeError\<close> is the engine's error for reading \<^verbatim>\<open>.id\<close> of an
  absent \<^verbatim>\<open>data\<close>; \<open>ExternalError m\<close> is the rejection, with message \<open>m\<close>, of an
  awaited call (\<^verbatim>\<open>find\<close>, \<^verbatim>\<open>update\<close>, \<^verbatim>\<open>fetch\<close>, \<^verbatim>\<open>json\<close>, \<^verbatim>\<open>arrayBuffer\<close>).
\<close>

datatype error =
    ValidationError string
  | SubmissionError string
  | ResultError
  | GenerationFailedError string
  | TimeoutError
  | TypeError
  | ExternalError string

fun message :: "error \<Rightarrow> string" where
  "message (ValidationError m) = m"
| "message (SubmissionError m) = ''API error: '' @ m"
| "message ResultError = ''No video URL in completed response''"
| "message (GenerationFailedError m) = ''Generation failed: '' @ m"
| "message TimeoutError = ''Timeout: Animation generation took too long''"
| "message TypeError =
     ''Cannot read properties of undefined (reading '' @ [CHR 0x27] @ ''id'' @ [CHR 0x27] @ '')''"
| "message (ExternalError m) = m"

subsection \<open>The world and the calls\<close>

text \<open>
  Every \<^verbatim>\<open>update\<close> call site runs at most once, the one inside the loop at most
  once per attempt; a site names the call.
\<close>

datatype site = PreSubmit | PersistJobId | Progress nat | Success | Failure

text \<open>
  The answers of the collaborators. \<open>Inl m\<close> and \<open>Some m\<close> in \<open>update_result\<close> and
  \<open>download_result\<close> stand for a rejected promise with message \<open>m\<close>. For the two
  \<^verbatim>\<open>fetch\<close> calls the rejection covers \<^verbatim>\<open>fetch\<close> itself and the \<^verbatim>\<open>json()\<close> that
  follows it. \<open>poll_result\<close> is indexed by the attempt number (from 1), \<open>now_ms\<close>
  is \<^verbatim>\<open>Date.now()\<close> inside that attempt, \<open>start_ms\<close> is \<^verbatim>\<open>startTime\<close>, and
  \<open>iso s\<close> is \<^verbatim>\<open>new Date().toISOString()\<close> as read at site \<open>s\<close>.
\<close>

record world =
  find_result :: "string + record_fields"
  update_result :: "site \<Rightarrow> string option"
  submit_result :: "string + submit_response"
  poll_result :: "nat \<Rightarrow> string + poll_body"
  download_result :: "string option"
  start_ms :: int
  now_ms :: "nat \<Rightarrow> int"
  iso :: "site \<Rightarrow> string"

text \<open>
  One issued call with its answer. \<open>EPoll\<close> carries the job id placed in the URL.
  All store calls address the record id of the trigger, which is left out.
\<close>

datatype event =
    EFind "string + record_fields"
  | EUpdate obj "string option"
  | ESubmit obj "string + submit_response"
  | ESleep nat
  | EPoll "string option" "string + poll_body"
  | EDownload string "string option"

fun is_poll :: "event \<Rightarrow> bool" where
  "is_poll (EPoll j r) = True"
| "is_poll _ = False"

fun is_submit :: "event \<Rightarrow> bool" where
  "is_submit (ESubmit p r) = True"
| "is_submit _ = False"

text \<open>A step yields the calls it issued and either the thrown error or its value.\<close>

type_synonym 'a step = "event list \<times> (error + 'a)"

definition update :: "world \<Rightarrow> site \<Rightarrow> obj \<Rightarrow> unit step" where
  "update w s f =
     ([EUpdate f (update_result w s)],
      case update_result w s of Some m \<Rightarrow> Inl (ExternalError m) | None \<Rightarrow> Inr ())"

text \<open>Sequencing: the rest runs only when the first step did not throw.\<close>

definition and_then :: "'a step \<Rightarrow> ('a \<Rightarrow> 'b step) \<Rightarrow> 'b step" where
  "and_then m k =
     (case m of
        (es, Inl e) \<Rightarrow> (es, Inl e)
      | (es, Inr x) \<Rightarrow> (case k x of (es', r) \<Rightarrow> (es @ es', r)))"

subsection \<open>Reading the record\<close>

text \<open>\<^verbatim>\<open>record.fields.input_image?.[0]?.url\<close>\<close>

definition first_url :: "attachment list option \<Rightarrow> string option" where
  "first_url a = (case a of None \<Rightarrow> None | Some [] \<Rightarrow> None | Some (x # _) \<Rightarrow> url x)"

text \<open>\<^verbatim>\<open>record.fields.seed || -1\<close>: the number 0 is falsy.\<close>

definition seed_or :: "int option \<Rightarrow> int" where
  "seed_or s = (case s of None \<Rightarrow> - 1 | Some n \<Rightarrow> if n \<noteq> 0 then n else - 1)"

definition mode_of :: "variant \<Rightarrow> record_fields \<Rightarrow> string" where
  "mode_of v r = (case v of ServerJs \<Rightarrow> or_else (mode r) ''animate'' | Part000 \<Rightarrow> ''animate'')"

definition resolution_of :: "variant \<Rightarrow> record_fields \<Rightarrow> string" where
  "resolution_of v r =
     (case v of ServerJs \<Rightarrow> or_else (resolution r) ''480p'' | Part000 \<Rightarrow> ''720p'')"

text \<open>
  \<^verbatim>\<open>submitPayload\<close>, with \<^verbatim>\<open>prompt = record.fields.prompt || ''\<close> added under
  \<^verbatim>\<open>if (prompt)\<close>.
\<close>

definition submitPayload :: "variant \<Rightarrow> record_fields \<Rightarrow> obj" where
  "submitPayload v r =
     [(''image'', str_val (first_url (input_image r))),
      (''video'', str_val (first_url (input_video r))),
      (''mode'', JStr (mode_of v r)),
      (''resolution'', JStr (resolution_of v r)),
      (''seed'', JNum (seed_or (seed r)))]
     @ (if or_else (prompt r) [] \<noteq> [] then [(''prompt'', JStr (or_else (prompt r) []))]
        else [])"

subsection \<open>The objects written to the record\<close>

definition maxAttempts :: nat where
  "maxAttempts = 120"

definition presubmit_fields :: "variant \<Rightarrow> world \<Rightarrow> record_fields \<Rightarrow> obj" where
  "presubmit_fields v w r =
     [(''status'', JStr ''Generating...''),
      (''error_log'', JStr (''Started at '' @ iso w PreSubmit @ nl @ ''Mode: '' @ mode_of v r
         @ nl @ ''Resolution: '' @ resolution_of v r))]"

definition persist_fields :: "world \<Rightarrow> string option \<Rightarrow> obj" where
  "persist_fields w jobId =
     [(''job_id'', str_val jobId),
      (''status'', JStr ''Processing...''),
      (''error_log'', JStr (''Job ID: '' @ show_str jobId @ nl @ ''Submitted at ''
         @ iso w PersistJobId))]"

definition progress_fields :: "string option \<Rightarrow> nat \<Rightarrow> int \<Rightarrow> obj" where
  "progress_fields jobId attempt elapsed =
     [(''status'', JStr (''Generating... '' @ show_int elapsed @ ''s elapsed'')),
      (''error_log'', JStr (''Job ID: '' @ show_str jobId @ nl @ ''Processing... (attempt ''
         @ show_nat attempt @ ''/'' @ show_nat maxAttempts @ '')''))]"

definition success_fields :: "variant \<Rightarrow> world \<Rightarrow> int \<Rightarrow> string \<Rightarrow> obj" where
  "success_fields v w elapsed videoUrl =
     [(''output_video'',
        (case v of ServerJs \<Rightarrow> JAttachments [videoUrl] | Part000 \<Rightarrow> JStr videoUrl)),
      (''status'', JStr ''Completed''),
      (''error_log'', JStr (''Completed at '' @ iso w Success @ nl @ ''Total time: ''
         @ show_int elapsed @ ''s'' @ nl
         @ (case v of ServerJs \<Rightarrow> ''Video: '' | Part000 \<Rightarrow> ''Video URL: '') @ videoUrl))]"

definition failure_fields :: "world \<Rightarrow> error \<Rightarrow> obj" where
  "failure_fields w e =
     [(''status'', JStr ''Failed''),
      (''error_log'', JStr (''Error: '' @ message e @ nl @ ''Time: '' @ iso w Failure))]"

subsection \<open>The poll loop\<close>

definition sleep :: "nat \<Rightarrow> unit step" where
  "sleep ms = ([ESleep ms], Inr ())"

definition poll :: "world \<Rightarrow> string option \<Rightarrow> nat \<Rightarrow> poll_body step" where
  "poll w jobId attempt =
     ([EPoll jobId (poll_result w attempt)],
      case poll_result w attempt of Inl m \<Rightarrow> Inl (ExternalError m) | Inr b \<Rightarrow> Inr b)"

text \<open>\<^verbatim>\<open>result.data.outputs?.[0]\<close>\<close>

definition first_output :: "string list option \<Rightarrow> string option" where
  "first_output os = (case os of None \<Rightarrow> None | Some [] \<Rightarrow> None | Some (u # _) \<Rightarrow> Some u)"

text \<open>
  The download of \<^verbatim>\<open>src/server.js\<close> (\<^verbatim>\<open>fetch(videoUrl)\<close>, \<^verbatim>\<open>arrayBuffer()\<close>); its
  result \<^verbatim>\<open>base64Video\<close> is never used. \<^verbatim>\<open>src/unnamed/part_000\<close> has no such step.
\<close>

definition download :: "variant \<Rightarrow> world \<Rightarrow> string \<Rightarrow> unit step" where
  "download v w videoUrl =
     (case v of
        ServerJs \<Rightarrow>
          ([EDownload videoUrl (download_result w)],
           case download_result w of Some m \<Rightarrow> Inl (ExternalError m) | None \<Rightarrow> Inr ())
      | Part000 \<Rightarrow> ([], Inr ()))"

text \<open>
  The branch \<^verbatim>\<open>result.data?.status === 'completed'\<close>; it sets \<^verbatim>\<open>completed = true\<close>,
  which is the value returned.
\<close>

definition on_completed :: "variant \<Rightarrow> world \<Rightarrow> int \<Rightarrow> poll_data \<Rightarrow> bool step" where
  "on_completed v w elapsed d =
     (case first_output (pd_outputs d) of
        None \<Rightarrow> ([], Inl ResultError)
      | Some videoUrl \<Rightarrow>
          if videoUrl = [] then ([], Inl ResultError)
          else and_then (download v w videoUrl) (\<lambda>_.
               and_then (update w Success (success_fields v w elapsed videoUrl)) (\<lambda>_.
               ([], Inr True))))"

text \<open>
  What the loop body does with the parsed poll response; the value is the new
  \<^verbatim>\<open>completed\<close>. An absent \<^verbatim>\<open>data\<close> makes \<^verbatim>\<open>result.data?.status\<close> undefined,
  which is neither terminal status.
\<close>

definition on_result :: "variant \<Rightarrow> world \<Rightarrow> int \<Rightarrow> poll_body \<Rightarrow> bool step" where
  "on_result v w elapsed result =
     (case pb_data result of
        None \<Rightarrow> ([], Inr False)
      | Some d \<Rightarrow>
          if pd_status d = Some ''completed'' then on_completed v w elapsed d
          else if pd_status d = Some ''failed''
            then ([], Inl (GenerationFailedError (or_else (pd_error d) ''Unknown error'')))
          else ([], Inr False))"

text \<open>\<^verbatim>\<open>Math.floor((Date.now() - startTime) / 1000)\<close> inside the given attempt.\<close>

definition elapsed_at :: "world \<Rightarrow> nat \<Rightarrow> int" where
  "elapsed_at w attempt = (now_ms w attempt - start_ms w) div 1000"

text \<open>The body of the \<^verbatim>\<open>while\<close> loop for the attempt number already incremented.\<close>

definition poll_step :: "variant \<Rightarrow> world \<Rightarrow> string option \<Rightarrow> nat \<Rightarrow> bool step" where
  "poll_step v w jobId attempt =
     and_then (sleep 5000) (\<lambda>_.
     and_then (update w (Progress attempt)
       (progress_fields jobId attempt (elapsed_at w attempt))) (\<lambda>_.
     and_then (poll w jobId attempt) (on_result v w (elapsed_at w attempt))))"

text \<open>\<^verbatim>\<open>while (attempt < maxAttempts && !completed) { attempt++; ... }\<close>\<close>

function poll_loop :: "variant \<Rightarrow> world \<Rightarrow> string option \<Rightarrow> nat \<Rightarrow> bool \<Rightarrow> bool step" where
  "poll_loop v w jobId attempt completed =
     (if attempt < maxAttempts \<and> \<not> completed then
        (case poll_step v w jobId (attempt + 1) of
           (es, Inl e) \<Rightarrow> (es, Inl e)
         | (es, Inr c) \<Rightarrow>
             (case poll_loop v w jobId (attempt + 1) c of (es', r) \<Rightarrow> (es @ es', r)))
      else ([], Inr completed))"
  by pat_completeness auto
termination
  by (relation "measure (\<lambda>(v, w, jobId, attempt, completed). maxAttempts - attempt)") auto

declare poll_loop.simps [simp del]

subsection \<open>The handler\<close>

definition find :: "world \<Rightarrow> record_fields step" where
  "find w =
     ([EFind (find_result w)],
      case find_result w of Inl m \<Rightarrow> Inl (ExternalError m) | Inr r \<Rightarrow> Inr r)"

definition submit :: "world \<Rightarrow> obj \<Rightarrow> submit_response step" where
  "submit w payload =
     ([ESubmit payload (submit_result w)],
      case submit_result w of Inl m \<Rightarrow> Inl (ExternalError m) | Inr r \<Rightarrow> Inr r)"

text \<open>From \<^verbatim>\<open>const jobId = submitResult.data.id\<close> to the throw after the loop.\<close>

definition poll_stage :: "variant \<Rightarrow> world \<Rightarrow> submit_body \<Rightarrow> unit step" where
  "poll_stage v w body =
     (case sb_data body of
        None \<Rightarrow> ([], Inl TypeError)
      | Some d \<Rightarrow>
          let jobId = sd_id d in
          and_then (update w PersistJobId (persist_fields w jobId)) (\<lambda>_.
          and_then (poll_loop v w jobId 0 False) (\<lambda>completed.
            if \<not> completed then ([], Inl TimeoutError) else ([], Inr ()))))"

text \<open>From the pre-submit status update on.\<close>

definition submit_stage :: "variant \<Rightarrow> world \<Rightarrow> record_fields \<Rightarrow> unit step" where
  "submit_stage v w r =
     and_then (update w PreSubmit (presubmit_fields v w r)) (\<lambda>_.
     and_then (submit w (submitPayload v r)) (\<lambda>resp.
       if \<not> sr_ok resp \<or> sb_code (sr_body resp) \<noteq> Some 200
       then ([], Inl (SubmissionError (or_else (sb_message (sr_body resp)) ''Unknown error'')))
       else poll_stage v w (sr_body resp)))"

text \<open>The \<^verbatim>\<open>try\<close> block.\<close>

definition body :: "variant \<Rightarrow> world \<Rightarrow> unit step" where
  "body v w =
     and_then (find w) (\<lambda>r.
       if \<not> truthy (first_url (input_image r))
       then ([], Inl (ValidationError ''No input image found''))
       else if \<not> truthy (first_url (input_video r))
       then ([], Inl (ValidationError ''No input video found''))
       else submit_stage v w r)"

text \<open>
  The background task: the \<^verbatim>\<open>try\<close> block and its \<^verbatim>\<open>catch\<close>, which issues the
  \<^verbatim>\<open>status: 'Failed'\<close> update and swallows that update's own rejection. The second
  component is the caught error, \<open>None\<close> when the \<^verbatim>\<open>try\<close> block completed.
\<close>

definition run :: "variant \<Rightarrow> world \<Rightarrow> event list \<times> error option" where
  "run v w =
     (case body v w of
        (es, Inl e) \<Rightarrow> (es @ [EUpdate (failure_fields w e) (update_result w Failure)], Some e)
      | (es, Inr _) \<Rightarrow> (es, None))"

text \<open>
  The route handler: \<^verbatim>\<open>400\<close> without a record id, otherwise the immediate
  acknowledgement followed by the background task.
\<close>

datatype response = BadRequest | Started

definition generate_animation ::
  "variant \<Rightarrow> world \<Rightarrow> string option \<Rightarrow> response \<times> event list \<times> error option" where
  "generate_animation v w recordId =
     (if \<not> truthy recordId then (BadRequest, [], None) else (Started, run v w))"

section \<open>Vocabulary of the properties\<close>

text \<open>\<^verbatim>\<open>result.data?.status\<close>\<close>

definition status_of :: "poll_body \<Rightarrow> string option" where
  "status_of b = (case pb_data b of None \<Rightarrow> None | Some d \<Rightarrow> pd_status d)"

text \<open>\<^verbatim>\<open>result.data?.outputs\<close>\<close>

definition outputs_of :: "poll_body \<Rightarrow> string list option" where
  "outputs_of b = (case pb_data b of None \<Rightarrow> None | Some d \<Rightarrow> pd_outputs d)"

text \<open>A poll answered with a body whose status is neither \<^verbatim>\<open>completed\<close> nor \<^verbatim>\<open>failed\<close>.\<close>

definition in_progress :: "string + poll_body \<Rightarrow> bool" where
  "in_progress r =
     (case r of Inl m \<Rightarrow> False
      | Inr b \<Rightarrow> status_of b \<noteq> Some ''completed'' \<and> status_of b \<noteq> Some ''failed'')"

text \<open>The two calls that open the iteration of attempt \<open>a\<close>: the sleep and the progress update.\<close>

definition progress_prefix :: "world \<Rightarrow> string option \<Rightarrow> nat \<Rightarrow> event list" where
  "progress_prefix w j a =
     [ESleep 5000, EUpdate (progress_fields j a (elapsed_at w a)) (update_result w (Progress a))]"

text \<open>The download call of the success path, present in \<^verbatim>\<open>src/server.js\<close> only.\<close>

definition download_events :: "variant \<Rightarrow> world \<Rightarrow> string \<Rightarrow> event list" where
  "download_events v w u = (case v of ServerJs \<Rightarrow> [EDownload u (download_result w)] | Part000 \<Rightarrow> [])"

text \<open>No poll request among the calls.\<close>

definition no_polls :: "event list \<Rightarrow> bool" where
  "no_polls es = (\<forall>ev \<in> set es. \<not> is_poll ev)"

text \<open>The kinds of calls the loop issues for the job id \<open>j\<close>.\<close>

definition loop_event :: "variant \<Rightarrow> world \<Rightarrow> string option \<Rightarrow> event \<Rightarrow> bool" where
  "loop_event v w j ev =
     (ev = ESleep 5000
      \<or> (\<exists>a el u. ev = EUpdate (progress_fields j a el) u)
      \<or> (\<exists>r. ev = EPoll j r)
      \<or> (\<exists>vu u. ev = EDownload vu u)
      \<or> (\<exists>el vu u. ev = EUpdate (success_fields v w el vu) u))"

text \<open>An update rejected by the store is the last call of the step, and its rejection is the
  error the step throws.\<close>

definition rejected_last :: "event list \<times> (error + 'a) \<Rightarrow> bool" where
  "rejected_last s =
     (\<forall>f m. EUpdate f (Some m) \<in> set (fst s) \<longrightarrow>
        snd s = Inl (ExternalError m) \<and> fst s \<noteq> [] \<and> last (fst s) = EUpdate f (Some m))"

text \<open>Every poll request comes right after a 5-second sleep and an accepted update.\<close>

definition sleep_first :: "event list \<Rightarrow> bool" where
  "sleep_first es =
     (\<forall>pre j r post. es = pre @ EPoll j r # post \<longrightarrow>
        (\<exists>pre' f. pre = pre' @ [ESleep 5000, EUpdate f None]))"

text \<open>What follows the poll of attempt \<open>a\<close> answered \<open>r\<close>: \<open>post\<close> are the remaining calls of the
  loop and \<open>res\<close> is the result of the loop.\<close>

definition poll_outcome ::
  "variant \<Rightarrow> world \<Rightarrow> nat \<Rightarrow> string + poll_body \<Rightarrow> event list \<Rightarrow> error + bool \<Rightarrow> bool" where
  "poll_outcome v w a r post res =
     (r = poll_result w a \<and> update_result w (Progress a) = None \<and>
      (case r of
         Inl m \<Rightarrow> post = [] \<and> res = Inl (ExternalError m)
       | Inr b \<Rightarrow> post = fst (on_result v w (elapsed_at w a) b)
           \<and> res = snd (on_result v w (elapsed_at w a) b)))"

text \<open>An update that has an \<^verbatim>\<open>output_video\<close> key.\<close>

fun writes_output_video :: "event \<Rightarrow> bool" where
  "writes_output_video (EUpdate f u) = (''output_video'' \<in> keys f)"
| "writes_output_video _ = False"

text \<open>No update with an \<^verbatim>\<open>output_video\<close> key among the calls.\<close>

definition no_video_writes :: "event list \<Rightarrow> bool" where
  "no_video_writes es = (\<forall>ev \<in> set es. \<not> writes_output_video ev)"

text \<open>The update issued by the \<^verbatim>\<open>catch\<close> block for the error \<open>e\<close>.\<close>

definition failure_write :: "world \<Rightarrow> error \<Rightarrow> event" where
  "failure_write w e = EUpdate (failure_fields w e) (update_result w Failure)"

text \<open>The error caught at the top level, from the result of the loop: a loop left with
  \<^verbatim>\<open>completed\<close> still false is followed by the timeout throw.\<close>

definition caught :: "error + bool \<Rightarrow> error option" where
  "caught res = (case res of Inl e \<Rightarrow> Some e | Inr c \<Rightarrow> if c then None else Some TimeoutError)"

text \<open>The calls issued after the loop.\<close>

definition closing :: "world \<Rightarrow> error + bool \<Rightarrow> event list" where
  "closing w res = (case caught res of Some e \<Rightarrow> [failure_write w e] | None \<Rightarrow> [])"

text \<open>Both \<^verbatim>\<open>if (!inputImage)\<close> and \<^verbatim>\<open>if (!inputVideo)\<close> are passed.\<close>

definition valid_inputs :: "record_fields \<Rightarrow> bool" where
  "valid_inputs r = (truthy (first_url (input_image r)) \<and> truthy (first_url (input_video r)))"

text \<open>The negation of \<^verbatim>\<open>!submitResponse.ok || submitResult.code !== 200\<close>.\<close>

definition accepted :: "submit_response \<Rightarrow> bool" where
  "accepted resp = (sr_ok resp \<and> sb_code (sr_body resp) = Some 200)"

text \<open>The calls of a run up to the submission, when the pre-submit update was accepted.\<close>

definition head_events :: "variant \<Rightarrow> world \<Rightarrow> record_fields \<Rightarrow> event list" where
  "head_events v w r =
     [EFind (Inr r), EUpdate (presubmit_fields v w r) None,
      ESubmit (submitPayload v r) (submit_result w)]"

text \<open>The value an update call writes under a key; \<open>None\<close> for any other call.\<close>

fun written :: "event \<Rightarrow> string \<Rightarrow> jsval option" where
  "written (EUpdate f u) k = map_of f k"
| "written _ k = None"

text \<open>The errors the loop body can throw.\<close>

definition loop_error :: "error \<Rightarrow> bool" where
  "loop_error e = (case e of
      ExternalError m \<Rightarrow> True | ResultError \<Rightarrow> True | GenerationFailedError m \<Rightarrow> True
    | _ \<Rightarrow> False)"

text \<open>
  An update of \<^verbatim>\<open>output_video\<close> issued for a poll answered \<^verbatim>\<open>completed\<close> whose first
  output is the non-empty URL written.
\<close>

definition success_write :: "variant \<Rightarrow> world \<Rightarrow> event list \<Rightarrow> obj \<Rightarrow> bool" where
  "success_write v w tr f =
     (\<exists>j b vu el. EPoll j (Inr b) \<in> set tr \<and> status_of b = Some ''completed''
        \<and> first_output (outputs_of b) = Some vu \<and> vu \<noteq> []
        \<and> f = success_fields v w el vu)"

section \<open>Concrete worlds\<close>

text \<open>
  The end-to-end scenario of the specification: both inputs present, no prompt, seed 42,
  an accepted submission with job id \<^verbatim>\<open>job1\<close>, and a first poll answered
  \<^verbatim>\<open>completed\<close> with one output.
\<close>

definition scenario_record :: record_fields where
  "scenario_record =
     \<lparr>input_image = Some [\<lparr>url = Some ''http://x/i.png''\<rparr>],
      input_video = Some [\<lparr>url = Some ''http://x/v.mp4''\<rparr>],
      prompt = None, mode = None, resolution = None, seed = Some 42\<rparr>"

definition scenario_world :: world where
  "scenario_world =
     \<lparr>find_result = Inr scenario_record,
      update_result = (\<lambda>s. None),
      submit_result = Inr \<lparr>sr_ok = True,
        sr_body = \<lparr>sb_code = Some 200, sb_message = None, sb_data = Some \<lparr>sd_id = Some ''job1''\<rparr>\<rparr>\<rparr>,
      poll_result = (\<lambda>a. Inr \<lparr>pb_data = Some \<lparr>pd_status = Some ''completed'',
        pd_outputs = Some [''http://out/video.mp4''], pd_error = None\<rparr>\<rparr>),
      download_result = None,
      start_ms = 0,
      now_ms = (\<lambda>a. 5000 * int a),
      iso = (\<lambda>s. ''2024-01-01T00:00:00.000Z'')\<rparr>"

text \<open>The same scenario with the submission refused by the API.\<close>

definition refusing_world :: world where
  "refusing_world =
     scenario_world\<lparr>submit_result := Inr \<lparr>sr_ok = False,
       sr_body = \<lparr>sb_code = Some 401, sb_message = Some ''Unauthorized'', sb_data = None\<rparr>\<rparr>\<rparr>"

text \<open>A job whose id is missing from an accepted submission and whose poll cannot be parsed.\<close>

definition idless_world :: world where
  "idless_world =
     scenario_world\<lparr>
       submit_result := Inr \<lparr>sr_ok = True,
         sr_body = \<lparr>sb_code = Some 200, sb_message = None, sb_data = Some \<lparr>sd_id = None\<rparr>\<rparr>\<rparr>,
       poll_result := (\<lambda>a. Inl ''invalid json response body'')\<rparr>"

text \<open>The scenario with a job that never leaves \<^verbatim>\<open>processing\<close>.\<close>

definition stalled_world :: world where
  "stalled_world =
     scenario_world\<lparr>poll_result := (\<lambda>a. Inr \<lparr>pb_data = Some \<lparr>pd_status = Some ''processing'',
        pd_outputs = None, pd_error = None\<rparr>\<rparr>)\<rparr>"

text \<open>The poll answer \<^verbatim>\<open>{data: {status: 'completed', outputs: os}}\<close>.\<close>

definition completed_body :: "string list \<Rightarrow> poll_body" where
  "completed_body os =
     \<lparr>pb_data = Some \<lparr>pd_status = Some ''completed'', pd_outputs = Some os, pd_error = None\<rparr>\<rparr>"

text \<open>The scenario with a completed job whose first output is the empty string.\<close>

definition blank_output_world :: world where
  "blank_output_world =
     scenario_world\<lparr>poll_result := (\<lambda>a. Inr \<lparr>pb_data = Some \<lparr>pd_status = Some ''completed'',
        pd_outputs = Some [[]], pd_error = None\<rparr>\<rparr>)\<rparr>"

text \<open>The scenario with a video download that fails.\<close>

definition download_failing_world :: world where
  "download_failing_world = scenario_world\<lparr>download_result := Some ''socket hang up''\<rparr>"

text \<open>The scenario with a store that rejects the first progress update of the loop.\<close>

definition flaky_store_world :: world where
  "flaky_store_world =
     scenario_world\<lparr>update_result :=
       (update_result scenario_world)(Progress 1 := Some ''RATE_LIMIT_REACHED'')\<rparr>"

text \<open>The scenario with the submission refused and an empty \<^verbatim>\<open>message\<close> in the body.\<close>

definition silent_refusal_world :: world where
  "silent_refusal_world =
     scenario_world\<lparr>submit_result := Inr \<lparr>sr_ok = False,
       sr_body = \<lparr>sb_code = Some 500, sb_message = Some [], sb_data = None\<rparr>\<rparr>\<rparr>"

text \<open>
  The scenario with a submission answered by a non-success response whose body is not
  JSON: \<^verbatim>\<open>submitResponse.json()\<close> rejects.
\<close>

definition unparsable_refusal_world :: world where
  "unparsable_refusal_world =
     scenario_world\<lparr>submit_result := Inl ''invalid json response body''\<rparr>"

section \<open>Lemmas about the poll loop and the shape of a run\<close>

lemma poll_loop_stop: "\<not> (a < maxAttempts \<and> \<not> c) \<Longrightarrow> poll_loop v w j a c = ([], Inr c)"
  by (subst poll_loop.simps) auto

lemma poll_loop_throw:
  "a < maxAttempts \<Longrightarrow> poll_step v w j (Suc a) = (es, Inl e) \<Longrightarrow> poll_loop v w j a False = (es, Inl e)"
  by (subst poll_loop.simps) simp

lemma poll_loop_done:
  "a < maxAttempts \<Longrightarrow> poll_step v w j (Suc a) = (es, Inr True) \<Longrightarrow> poll_loop v w j a False = (es, Inr True)"
  by (subst poll_loop.simps) (simp add: poll_loop_stop)

lemma poll_loop_continue:
  "a < maxAttempts \<Longrightarrow> poll_step v w j (Suc a) = (es, Inr False) \<Longrightarrow>
   poll_loop v w j a False =
     (es @ fst (poll_loop v w j (Suc a) False), snd (poll_loop v w j (Suc a) False))"
  by (subst poll_loop.simps) (simp split: prod.splits)

lemma poll_loop_cases:
  assumes stop: "\<And>a c. \<not> (a < maxAttempts \<and> \<not> c) \<Longrightarrow> P a c"
    and throw: "\<And>a es e. a < maxAttempts \<Longrightarrow> poll_step v w j (Suc a) = (es, Inl e) \<Longrightarrow> P a False"
    and finished: "\<And>a es. a < maxAttempts \<Longrightarrow> poll_step v w j (Suc a) = (es, Inr True) \<Longrightarrow> P a False"
    and continue: "\<And>a es. a < maxAttempts \<Longrightarrow> poll_step v w j (Suc a) = (es, Inr False) \<Longrightarrow>
           P (Suc a) False \<Longrightarrow> P a False"
  shows "P a c"
proof (induction n \<equiv> "maxAttempts - a" arbitrary: a c)
  case (0 a c)
  then have "\<not> (a < maxAttempts \<and> \<not> c)" by simp
  then show ?case by (rule stop)
next
  case (Suc n a c)
  show ?case
  proof (cases "a < maxAttempts \<and> \<not> c")
    case False
    then show ?thesis by (rule stop)
  next
    case True
    then have a: "a < maxAttempts" and c: "c = False" by simp_all
    obtain es r where st: "poll_step v w j (Suc a) = (es, r)"
      by (cases "poll_step v w j (Suc a)")
    show ?thesis
    proof (cases r)
      case (Inl e)
      with st have "poll_step v w j (Suc a) = (es, Inl e)" by simp
      from throw[OF a this] show ?thesis by (simp add: c)
    next
      case (Inr c')
      show ?thesis
      proof (cases c')
        case True
        with st Inr have "poll_step v w j (Suc a) = (es, Inr True)" by simp
        from finished[OF a this] show ?thesis by (simp add: c)
      next
        case False
        with st Inr have st': "poll_step v w j (Suc a) = (es, Inr False)" by simp
        have "n = maxAttempts - Suc a" using Suc.hyps(2) by simp
        then have "P (Suc a) False" by (rule Suc.hyps(1))
        from continue[OF a st' this] show ?thesis by (simp add: c)
      qed
    qed
  qed
qed

lemma and_then_Inl [simp]: "and_then (es, Inl e) k = (es, Inl e)"
  by (simp add: and_then_def)

lemma and_then_Inr [simp]: "and_then (es, Inr x) k = (es @ fst (k x), snd (k x))"
  by (simp add: and_then_def split: prod.splits)

lemma poll_step_shape:
  "poll_step v w j a =
     (case update_result w (Progress a) of
        Some m \<Rightarrow> (progress_prefix w j a, Inl (ExternalError m))
      | None \<Rightarrow>
          (case poll_result w a of
             Inl m \<Rightarrow> (progress_prefix w j a @ [EPoll j (Inl m)], Inl (ExternalError m))
           | Inr b \<Rightarrow>
               (progress_prefix w j a @ EPoll j (Inr b) # fst (on_result v w (elapsed_at w a) b),
                snd (on_result v w (elapsed_at w a) b))))"
  by (simp add: poll_step_def sleep_def update_def poll_def progress_prefix_def
      split: option.splits sum.splits)

lemma on_completed_shape:
  "on_completed v w el d =
     (case first_output (pd_outputs d) of
        None \<Rightarrow> ([], Inl ResultError)
      | Some u \<Rightarrow>
          if u = [] then ([], Inl ResultError)
          else if v = ServerJs \<and> download_result w \<noteq> None
            then (download_events v w u, Inl (ExternalError (the (download_result w))))
          else (download_events v w u @ [EUpdate (success_fields v w el u) (update_result w Success)],
                case update_result w Success of
                  Some m \<Rightarrow> Inl (ExternalError m) | None \<Rightarrow> Inr True))"
  by (cases v)
     (simp_all add: on_completed_def download_def download_events_def update_def
      split: option.splits)

lemma on_result_shape:
  "on_result v w el b =
     (if status_of b = Some ''completed'' then on_completed v w el (the (pb_data b))
      else if status_of b = Some ''failed''
        then ([], Inl (GenerationFailedError (or_else (pd_error (the (pb_data b))) ''Unknown error'')))
      else ([], Inr False))"
  by (simp add: on_result_def status_of_def split: option.splits)

lemma append_split:
  "xs @ ys = pre @ x # post \<Longrightarrow>
   (\<exists>zs. xs = pre @ x # zs \<and> post = zs @ ys) \<or> (\<exists>zs. pre = xs @ zs \<and> ys = zs @ x # post)"
  by (auto simp: append_eq_append_conv2 append_eq_Cons_conv)

lemma no_polls_simps [simp]:
  "no_polls []"
  "no_polls (x # xs) = (\<not> is_poll x \<and> no_polls xs)"
  "no_polls (xs @ ys) = (no_polls xs \<and> no_polls ys)"
  by (auto simp: no_polls_def)

lemma no_polls_download [simp]: "no_polls (download_events v w u)"
  by (cases v) (simp_all add: download_events_def)

lemma no_polls_on_completed [simp]: "no_polls (fst (on_completed v w el d))"
  by (simp add: on_completed_shape split: option.splits)

lemma no_polls_on_result [simp]: "no_polls (fst (on_result v w el b))"
  by (simp add: on_result_shape)

lemma no_polls_prefix [simp]: "no_polls (progress_prefix w j a)"
  by (simp add: progress_prefix_def)

subsection \<open>Number of polls\<close>

lemma polls_none: "no_polls es \<Longrightarrow> filter is_poll es = []"
  by (induction es) auto

lemma poll_step_polls: "length (filter is_poll (fst (poll_step v w j a))) \<le> 1"
  by (simp add: poll_step_shape polls_none split: option.splits sum.splits)

lemma poll_loop_polls:
  "length (filter is_poll (fst (poll_loop v w j a c))) \<le> maxAttempts - a"
proof (induction a c rule: poll_loop_cases[where v = v and w = w and j = j])
  case (1 a c)
  then show ?case by (simp add: poll_loop_stop)
next
  case (2 a es e)
  then show ?case using poll_step_polls[of v w j "Suc a"] by (simp add: poll_loop_throw)
next
  case (3 a es)
  then show ?case using poll_step_polls[of v w j "Suc a"] by (simp add: poll_loop_done)
next
  case (4 a es)
  then show ?case using poll_step_polls[of v w j "Suc a"] by (simp add: poll_loop_continue)
qed

subsection \<open>The kinds of calls the loop issues\<close>

lemma loop_event_download: "ev \<in> set (download_events v w u) \<Longrightarrow> loop_event v w j ev"
  by (cases v) (auto simp: download_events_def loop_event_def)

lemma loop_event_on_completed: "ev \<in> set (fst (on_completed v w el d)) \<Longrightarrow> loop_event v w j ev"
  by (auto simp: on_completed_shape loop_event_download split: option.splits if_splits)
     (auto simp: loop_event_def)

lemma loop_event_on_result: "ev \<in> set (fst (on_result v w el b)) \<Longrightarrow> loop_event v w j ev"
  by (auto simp: on_result_shape loop_event_on_completed split: if_splits)

lemma loop_event_step: "ev \<in> set (fst (poll_step v w j a)) \<Longrightarrow> loop_event v w j ev"
  by (auto simp: poll_step_shape progress_prefix_def loop_event_on_result
      split: option.splits sum.splits)
     (auto simp: loop_event_def)

lemma loop_event_loop: "ev \<in> set (fst (poll_loop v w j a c)) \<Longrightarrow> loop_event v w j ev"
proof (induction a c rule: poll_loop_cases[where v = v and w = w and j = j])
  case (1 a c)
  then show ?case by (simp add: poll_loop_stop)
next
  case (2 a es e)
  then show ?case using loop_event_step[of ev v w j "Suc a"] by (simp add: poll_loop_throw)
next
  case (3 a es)
  then show ?case using loop_event_step[of ev v w j "Suc a"] by (simp add: poll_loop_done)
next
  case (4 a es)
  then show ?case using loop_event_step[of ev v w j "Suc a"]
    by (auto simp add: poll_loop_continue)
qed

subsection \<open>A rejected update ends the loop\<close>

lemma rejected_last_on_completed: "rejected_last (on_completed v w el d)"
  by (cases v)
     (auto simp: rejected_last_def on_completed_shape download_events_def
       split: option.splits if_splits)

lemma rejected_last_on_result: "rejected_last (on_result v w el b)"
  using rejected_last_on_completed[of v w el "the (pb_data b)"]
  by (simp add: on_result_shape) (simp add: rejected_last_def)

lemma rejected_last_step: "rejected_last (poll_step v w j a)"
  using rejected_last_on_result[of v w "elapsed_at w a"]
  by (auto simp: poll_step_shape rejected_last_def progress_prefix_def
      split: option.splits sum.splits)

lemma rejected_last_loop: "rejected_last (poll_loop v w j a c)"
proof (induction a c rule: poll_loop_cases[where v = v and w = w and j = j])
  case (1 a c)
  then show ?case by (simp add: poll_loop_stop rejected_last_def)
next
  case (2 a es e)
  then show ?case using rejected_last_step[of v w j "Suc a"] by (simp add: poll_loop_throw)
next
  case (3 a es)
  then show ?case using rejected_last_step[of v w j "Suc a"] by (simp add: poll_loop_done)
next
  case (4 a es)
  have "\<And>f m. EUpdate f (Some m) \<notin> set es"
    using rejected_last_step[of v w j "Suc a"] 4(2) by (auto simp: rejected_last_def)
  with 4 show ?case
    by (auto simp add: poll_loop_continue rejected_last_def)
qed

subsection \<open>Every poll comes right after a sleep and a progress update\<close>

lemma sleep_first_no_polls: "no_polls es \<Longrightarrow> sleep_first es"
  by (auto simp: sleep_first_def)

lemma sleep_first_append:
  assumes "sleep_first xs" and "sleep_first ys"
  shows "sleep_first (xs @ ys)"
  unfolding sleep_first_def
proof (intro allI impI)
  fix pre j r post
  assume "xs @ ys = pre @ EPoll j r # post"
  from append_split[OF this] show "\<exists>pre' f. pre = pre' @ [ESleep 5000, EUpdate f None]"
  proof
    assume "\<exists>zs. xs = pre @ EPoll j r # zs \<and> post = zs @ ys"
    with assms(1) show ?thesis unfolding sleep_first_def by blast
  next
    assume "\<exists>zs. pre = xs @ zs \<and> ys = zs @ EPoll j r # post"
    then obtain zs where pre: "pre = xs @ zs" and ys: "ys = zs @ EPoll j r # post" by blast
    from assms(2) ys obtain pre' f where "zs = pre' @ [ESleep 5000, EUpdate f None]"
      unfolding sleep_first_def by blast
    with pre have "pre = (xs @ pre') @ [ESleep 5000, EUpdate f None]" by simp
    then show ?thesis by blast
  qed
qed

lemma sleep_first_poll_tail:
  assumes "no_polls rest"
  shows "sleep_first ([ESleep 5000, EUpdate f None] @ EPoll j r # rest)"
  unfolding sleep_first_def
proof (intro allI impI)
  fix pre j' r' post
  assume eq: "[ESleep 5000, EUpdate f None] @ EPoll j r # rest = pre @ EPoll j' r' # post"
  have "pre = [ESleep 5000, EUpdate f None]"
  proof (rule ccontr)
    assume ne: "pre \<noteq> [ESleep 5000, EUpdate f None]"
    from eq have "([ESleep 5000, EUpdate f None] @ [EPoll j r]) @ rest = pre @ EPoll j' r' # post"
      by simp
    from append_split[OF this] ne assms show False
      by (auto simp: Cons_eq_append_conv)
  qed
  then show "\<exists>pre' f. pre = pre' @ [ESleep 5000, EUpdate f None]" by blast
qed

lemma sleep_first_step: "sleep_first (fst (poll_step v w j a))"
proof (cases "update_result w (Progress a)")
  case (Some m)
  then show ?thesis by (simp add: poll_step_shape sleep_first_no_polls)
next
  case None
  show ?thesis
  proof (cases "poll_result w a")
    case (Inl m)
    with None sleep_first_poll_tail[of "[]" "progress_fields j a (elapsed_at w a)" j "Inl m"]
    show ?thesis by (simp add: poll_step_shape progress_prefix_def)
  next
    case (Inr b)
    with None sleep_first_poll_tail[of "fst (on_result v w (elapsed_at w a) b)"
        "progress_fields j a (elapsed_at w a)" j "Inr b"]
    show ?thesis by (simp add: poll_step_shape progress_prefix_def)
  qed
qed

lemma sleep_first_loop: "sleep_first (fst (poll_loop v w j a c))"
proof (induction a c rule: poll_loop_cases[where v = v and w = w and j = j])
  case (1 a c)
  then show ?case by (simp add: poll_loop_stop sleep_first_no_polls)
next
  case (2 a es e)
  then show ?case using sleep_first_step[of v w j "Suc a"] by (simp add: poll_loop_throw)
next
  case (3 a es)
  then show ?case using sleep_first_step[of v w j "Suc a"] by (simp add: poll_loop_done)
next
  case (4 a es)
  then show ?case using sleep_first_step[of v w j "Suc a"]
    by (simp add: poll_loop_continue sleep_first_append)
qed

subsection \<open>Exhausting the attempts\<close>

lemma in_progress_on_result:
  "in_progress (Inr b) \<Longrightarrow> on_result v w el b = ([], Inr False)"
  by (simp add: on_result_shape in_progress_def)

lemma not_in_progress_on_result:
  "\<not> in_progress (Inr b) \<Longrightarrow> snd (on_result v w el b) \<noteq> Inr False"
  by (auto simp: on_result_shape in_progress_def on_completed_shape split: option.splits)

lemma poll_step_in_progress:
  assumes "\<forall>j' r. EPoll j' r \<in> set (fst (poll_step v w j a)) \<longrightarrow> in_progress r"
  shows "(no_polls (fst (poll_step v w j a)) \<and> (\<exists>e. snd (poll_step v w j a) = Inl e))
       \<or> (length (filter is_poll (fst (poll_step v w j a))) = 1
            \<and> snd (poll_step v w j a) = Inr False)"
proof (cases "update_result w (Progress a)")
  case (Some m)
  then show ?thesis by (simp add: poll_step_shape)
next
  case None
  show ?thesis
  proof (cases "poll_result w a")
    case (Inl m)
    with None assms show ?thesis by (simp add: poll_step_shape in_progress_def)
  next
    case (Inr b)
    with None assms have "in_progress (Inr b)" by (simp add: poll_step_shape)
    with None Inr show ?thesis
      by (simp add: poll_step_shape in_progress_on_result polls_none)
  qed
qed

lemma poll_loop_exhausted:
  "c = False \<longrightarrow> length (filter is_poll (fst (poll_loop v w j a c))) = maxAttempts - a \<longrightarrow>
   (\<forall>j' r. EPoll j' r \<in> set (fst (poll_loop v w j a c)) \<longrightarrow> in_progress r) \<longrightarrow>
   snd (poll_loop v w j a c) = Inr False"
proof (induction a c rule: poll_loop_cases[where v = v and w = w and j = j])
  case (1 a c)
  then show ?case by (cases c) (simp_all add: poll_loop_stop)
next
  case (2 a es e)
  note loop = poll_loop_throw[OF 2]
  show ?case
  proof (intro impI)
    assume cnt: "length (filter is_poll (fst (poll_loop v w j a False))) = maxAttempts - a"
      and prog: "\<forall>j' r. EPoll j' r \<in> set (fst (poll_loop v w j a False)) \<longrightarrow> in_progress r"
    from prog have "\<forall>j' r. EPoll j' r \<in> set (fst (poll_step v w j (Suc a))) \<longrightarrow> in_progress r"
      by (simp add: loop 2(2))
    from poll_step_in_progress[OF this] have "no_polls es" by (simp add: 2(2))
    with cnt 2(1) show "snd (poll_loop v w j a False) = Inr False"
      by (simp add: loop polls_none)
  qed
next
  case (3 a es)
  note loop = poll_loop_done[OF 3]
  show ?case
  proof (intro impI)
    assume prog: "\<forall>j' r. EPoll j' r \<in> set (fst (poll_loop v w j a False)) \<longrightarrow> in_progress r"
    from prog have "\<forall>j' r. EPoll j' r \<in> set (fst (poll_step v w j (Suc a))) \<longrightarrow> in_progress r"
      by (simp add: loop 3(2))
    from poll_step_in_progress[OF this] show "snd (poll_loop v w j a False) = Inr False"
      by (simp add: 3(2))
  qed
next
  case (4 a es)
  note loop = poll_loop_continue[OF 4(1,2)]
  show ?case
  proof (intro impI)
    assume cnt: "length (filter is_poll (fst (poll_loop v w j a False))) = maxAttempts - a"
      and prog: "\<forall>j' r. EPoll j' r \<in> set (fst (poll_loop v w j a False)) \<longrightarrow> in_progress r"
    from prog have p1: "\<forall>j' r. EPoll j' r \<in> set (fst (poll_step v w j (Suc a))) \<longrightarrow> in_progress r"
      and p2: "\<forall>j' r. EPoll j' r \<in> set (fst (poll_loop v w j (Suc a) False)) \<longrightarrow> in_progress r"
      by (simp_all add: loop 4(2))
    from poll_step_in_progress[OF p1] have "length (filter is_poll es) = 1"
      by (simp add: 4(2))
    with cnt 4(1) have
      "length (filter is_poll (fst (poll_loop v w j (Suc a) False))) = maxAttempts - Suc a"
      by (simp add: loop)
    with 4(3) p2 show "snd (poll_loop v w j a False) = Inr False"
      by (simp add: loop)
  qed
qed

subsection \<open>What follows a poll answered \<^verbatim>\<open>completed\<close>\<close>

lemma poll_step_decomp:
  assumes "fst (poll_step v w j a) = pre @ EPoll j' r # post"
  shows "pre = progress_prefix w j a \<and> j' = j \<and> r = poll_result w a \<and>
         update_result w (Progress a) = None \<and>
         (case r of Inl m \<Rightarrow> post = [] \<and> snd (poll_step v w j a) = Inl (ExternalError m)
          | Inr b \<Rightarrow> post = fst (on_result v w (elapsed_at w a) b)
              \<and> snd (poll_step v w j a) = snd (on_result v w (elapsed_at w a) b))"
proof (cases "update_result w (Progress a)")
  case (Some m)
  with assms have "no_polls (pre @ EPoll j' r # post)"
    by (simp add: poll_step_shape flip: assms)
  then show ?thesis by simp
next
  case None
  have key: "pre = xs \<and> j' = j \<and> r = r0 \<and> post = rest"
    if "xs @ EPoll j r0 # rest = pre @ EPoll j' r # post" "no_polls xs" "no_polls rest"
    for xs r0 rest
  proof -
    from that(1) have "(xs @ [EPoll j r0]) @ rest = pre @ EPoll j' r # post" by simp
    from append_split[OF this] that(2,3) show ?thesis
      by (auto simp: append_eq_append_conv2 append_eq_Cons_conv Cons_eq_append_conv)
  qed
  show ?thesis
  proof (cases "poll_result w a")
    case (Inl m)
    with None assms key[of "progress_prefix w j a" "Inl m" "[]"] show ?thesis
      by (simp add: poll_step_shape)
  next
    case (Inr b)
    with None assms key[of "progress_prefix w j a" "Inr b" "fst (on_result v w (elapsed_at w a) b)"]
    show ?thesis
      by (simp add: poll_step_shape)
  qed
qed

lemma poll_step_outcome:
  assumes "poll_step v w j a = (es, res)" and "es = pre @ EPoll j' r # post"
  shows "pre = progress_prefix w j a \<and> j' = j \<and> poll_outcome v w a r post res"
proof -
  from assms have "fst (poll_step v w j a) = pre @ EPoll j' r # post"
    and res: "snd (poll_step v w j a) = res" by simp_all
  from poll_step_decomp[OF this(1)] res show ?thesis
    by (auto simp: poll_outcome_def split: sum.splits)
qed

lemma poll_outcome_Inr_False:
  assumes "poll_outcome v w a r post (Inr False)"
  shows "in_progress r"
proof (cases r)
  case (Inl m)
  with assms show ?thesis by (simp add: poll_outcome_def)
next
  case (Inr b)
  with assms have "snd (on_result v w (elapsed_at w a) b) = Inr False"
    by (simp add: poll_outcome_def)
  with not_in_progress_on_result[of b v w "elapsed_at w a"] Inr show ?thesis by blast
qed

lemma poll_loop_decomp:
  "\<forall>pre post. fst (poll_loop v w j a c) = pre @ EPoll j' r # post \<longrightarrow> \<not> in_progress r \<longrightarrow>
     j' = j \<and> (\<exists>a'. poll_outcome v w a' r post (snd (poll_loop v w j a c)))"
proof (induction a c rule: poll_loop_cases[where v = v and w = w and j = j])
  case (1 a c)
  then show ?case by (simp add: poll_loop_stop)
next
  case (2 a es e)
  show ?case
  proof (intro allI impI)
    fix pre post
    assume "fst (poll_loop v w j a False) = pre @ EPoll j' r # post"
    then have "es = pre @ EPoll j' r # post" by (simp add: poll_loop_throw[OF 2])
    from poll_step_outcome[OF 2(2) this]
    show "j' = j \<and> (\<exists>a'. poll_outcome v w a' r post (snd (poll_loop v w j a False)))"
      by (auto simp: poll_loop_throw[OF 2])
  qed
next
  case (3 a es)
  show ?case
  proof (intro allI impI)
    fix pre post
    assume "fst (poll_loop v w j a False) = pre @ EPoll j' r # post"
    then have "es = pre @ EPoll j' r # post" by (simp add: poll_loop_done[OF 3])
    from poll_step_outcome[OF 3(2) this]
    show "j' = j \<and> (\<exists>a'. poll_outcome v w a' r post (snd (poll_loop v w j a False)))"
      by (auto simp: poll_loop_done[OF 3])
  qed
next
  case (4 a es)
  note loop = poll_loop_continue[OF 4(1,2)]
  show ?case
  proof (intro allI impI)
    fix pre post
    assume eq: "fst (poll_loop v w j a False) = pre @ EPoll j' r # post"
      and nt: "\<not> in_progress r"
    from eq have "es @ fst (poll_loop v w j (Suc a) False) = pre @ EPoll j' r # post"
      by (simp add: loop)
    from append_split[OF this]
    show "j' = j \<and> (\<exists>a'. poll_outcome v w a' r post (snd (poll_loop v w j a False)))"
    proof
      assume "\<exists>zs. es = pre @ EPoll j' r # zs \<and> post = zs @ fst (poll_loop v w j (Suc a) False)"
      then obtain zs where "es = pre @ EPoll j' r # zs" by blast
      from poll_step_outcome[OF 4(2) this] nt poll_outcome_Inr_False
      show ?thesis by blast
    next
      assume "\<exists>zs. pre = es @ zs \<and> fst (poll_loop v w j (Suc a) False) = zs @ EPoll j' r # post"
      with 4(3) nt show ?thesis by (auto simp: loop)
    qed
  qed
qed

subsection \<open>Writes of \<^verbatim>\<open>output_video\<close>\<close>

lemma keys_progress [simp]: "keys (progress_fields j a el) = {''status'', ''error_log''}"
  by (auto simp: keys_def progress_fields_def)

lemma keys_success [simp]:
  "keys (success_fields v w el u) = {''output_video'', ''status'', ''error_log''}"
  by (auto simp: keys_def success_fields_def)

lemma keys_presubmit [simp]: "keys (presubmit_fields v w r) = {''status'', ''error_log''}"
  by (auto simp: keys_def presubmit_fields_def)

lemma keys_persist [simp]: "keys (persist_fields w j) = {''job_id'', ''status'', ''error_log''}"
  by (auto simp: keys_def persist_fields_def)

lemma keys_failure [simp]: "keys (failure_fields w e) = {''status'', ''error_log''}"
  by (auto simp: keys_def failure_fields_def)

lemma no_video_writes_filter: "no_video_writes es \<Longrightarrow> filter writes_output_video es = []"
  by (induction es) (auto simp: no_video_writes_def)

lemma no_video_writes_download: "no_video_writes (download_events v w u)"
  by (cases v) (simp_all add: download_events_def no_video_writes_def)

lemma video_writes_on_completed:
  "length (filter writes_output_video (fst (on_completed v w el d))) \<le> 1"
  by (simp add: on_completed_shape no_video_writes_filter no_video_writes_download
      split: option.splits)

lemma video_writes_on_result:
  "length (filter writes_output_video (fst (on_result v w el b))) \<le> 1"
  using video_writes_on_completed[of v w el "the (pb_data b)"]
  by (simp add: on_result_shape)

lemma video_writes_step:
  "length (filter writes_output_video (fst (poll_step v w j a))) \<le> 1"
  using video_writes_on_result[of v w "elapsed_at w a"]
  by (simp add: poll_step_shape progress_prefix_def split: option.splits sum.splits)

lemma video_writes_step_continue:
  assumes "poll_step v w j a = (es, Inr False)"
  shows "filter writes_output_video es = []"
proof (cases "update_result w (Progress a)")
  case (Some m)
  with assms show ?thesis by (simp add: poll_step_shape)
next
  case None
  show ?thesis
  proof (cases "poll_result w a")
    case (Inl m)
    with None assms show ?thesis by (simp add: poll_step_shape)
  next
    case (Inr b)
    with None assms have "snd (on_result v w (elapsed_at w a) b) = Inr False"
      by (simp add: poll_step_shape)
    with not_in_progress_on_result[of b v w "elapsed_at w a"] have "in_progress (Inr b)" by blast
    with None Inr assms show ?thesis
      by (auto simp add: poll_step_shape in_progress_on_result progress_prefix_def)
  qed
qed

lemma video_writes_loop:
  "length (filter writes_output_video (fst (poll_loop v w j a c))) \<le> 1"
proof (induction a c rule: poll_loop_cases[where v = v and w = w and j = j])
  case (1 a c)
  then show ?case by (simp add: poll_loop_stop)
next
  case (2 a es e)
  then show ?case using video_writes_step[of v w j "Suc a"] by (simp add: poll_loop_throw)
next
  case (3 a es)
  then show ?case using video_writes_step[of v w j "Suc a"] by (simp add: poll_loop_done)
next
  case (4 a es)
  then show ?case using video_writes_step_continue[of v w j "Suc a" es]
    by (simp add: poll_loop_continue)
qed

subsection \<open>The shapes of a run\<close>

lemma poll_stage_shape:
  "poll_stage v w b =
     (case sb_data b of
        None \<Rightarrow> ([], Inl TypeError)
      | Some d \<Rightarrow>
          (case update_result w PersistJobId of
             Some m \<Rightarrow> ([EUpdate (persist_fields w (sd_id d)) (Some m)], Inl (ExternalError m))
           | None \<Rightarrow>
               (EUpdate (persist_fields w (sd_id d)) None # fst (poll_loop v w (sd_id d) 0 False),
                case caught (snd (poll_loop v w (sd_id d) 0 False)) of
                  Some e \<Rightarrow> Inl e | None \<Rightarrow> Inr ())))"
  by (cases "poll_loop v w (sd_id (the (sb_data b))) 0 False")
     (auto simp: poll_stage_def update_def caught_def split: option.splits sum.splits)

lemma submit_stage_shape:
  "submit_stage v w r =
     (case update_result w PreSubmit of
        Some m \<Rightarrow> ([EUpdate (presubmit_fields v w r) (Some m)], Inl (ExternalError m))
      | None \<Rightarrow>
          (case submit_result w of
             Inl m \<Rightarrow> (tl (head_events v w r), Inl (ExternalError m))
           | Inr resp \<Rightarrow>
               if \<not> accepted resp
               then (tl (head_events v w r),
                     Inl (SubmissionError (or_else (sb_message (sr_body resp)) ''Unknown error'')))
               else (tl (head_events v w r) @ fst (poll_stage v w (sr_body resp)),
                     snd (poll_stage v w (sr_body resp)))))"
  by (auto simp: submit_stage_def update_def submit_def head_events_def accepted_def
      split: option.splits sum.splits)

lemma body_shape:
  "body v w =
     (case find_result w of
        Inl m \<Rightarrow> ([EFind (Inl m)], Inl (ExternalError m))
      | Inr r \<Rightarrow>
          if \<not> truthy (first_url (input_image r))
          then ([EFind (Inr r)], Inl (ValidationError ''No input image found''))
          else if \<not> truthy (first_url (input_video r))
          then ([EFind (Inr r)], Inl (ValidationError ''No input video found''))
          else (EFind (Inr r) # fst (submit_stage v w r), snd (submit_stage v w r)))"
  by (auto simp: body_def find_def split: sum.splits)

lemma run_cases:
  obtains
    (find_rejected) m where "find_result w = Inl m"
      "run v w = ([EFind (Inl m), failure_write w (ExternalError m)], Some (ExternalError m))"
  | (invalid) r m where "find_result w = Inr r" "\<not> valid_inputs r"
      "m = (if \<not> truthy (first_url (input_image r)) then ''No input image found''
            else ''No input video found'')"
      "run v w = ([EFind (Inr r), failure_write w (ValidationError m)], Some (ValidationError m))"
  | (presubmit_rejected) r m where "find_result w = Inr r" "valid_inputs r"
      "update_result w PreSubmit = Some m"
      "run v w = ([EFind (Inr r), EUpdate (presubmit_fields v w r) (Some m),
                   failure_write w (ExternalError m)], Some (ExternalError m))"
  | (submit_rejected) r m where "find_result w = Inr r" "valid_inputs r"
      "update_result w PreSubmit = None" "submit_result w = Inl m"
      "run v w = (head_events v w r @ [failure_write w (ExternalError m)], Some (ExternalError m))"
  | (submit_refused) r resp e where "find_result w = Inr r" "valid_inputs r"
      "update_result w PreSubmit = None" "submit_result w = Inr resp" "\<not> accepted resp"
      "e = SubmissionError (or_else (sb_message (sr_body resp)) ''Unknown error'')"
      "run v w = (head_events v w r @ [failure_write w e], Some e)"
  | (no_data) r resp where "find_result w = Inr r" "valid_inputs r"
      "update_result w PreSubmit = None" "submit_result w = Inr resp" "accepted resp"
      "sb_data (sr_body resp) = None"
      "run v w = (head_events v w r @ [failure_write w TypeError], Some TypeError)"
  | (persist_rejected) r resp d m where "find_result w = Inr r" "valid_inputs r"
      "update_result w PreSubmit = None" "submit_result w = Inr resp" "accepted resp"
      "sb_data (sr_body resp) = Some d" "update_result w PersistJobId = Some m"
      "run v w = (head_events v w r @ [EUpdate (persist_fields w (sd_id d)) (Some m),
                    failure_write w (ExternalError m)], Some (ExternalError m))"
  | (polling) r resp d es res where "find_result w = Inr r" "valid_inputs r"
      "update_result w PreSubmit = None" "submit_result w = Inr resp" "accepted resp"
      "sb_data (sr_body resp) = Some d" "update_result w PersistJobId = None"
      "poll_loop v w (sd_id d) 0 False = (es, res)"
      "run v w = (head_events v w r @ EUpdate (persist_fields w (sd_id d)) None # es
                    @ closing w res, caught res)"
proof (cases "find_result w")
  case (Inl m)
  then show ?thesis
    by (intro find_rejected[of m]) (simp_all add: run_def body_shape failure_write_def)
next
  case (Inr r)
  note fr = Inr
  show ?thesis
  proof (cases "valid_inputs r")
    case False
    with fr show ?thesis
      by (intro invalid[of r]) (auto simp: run_def body_shape failure_write_def valid_inputs_def)
  next
    case True
    note vi = True
    then have b: "body v w = (EFind (Inr r) # fst (submit_stage v w r), snd (submit_stage v w r))"
      by (simp add: body_shape fr valid_inputs_def)
    show ?thesis
    proof (cases "update_result w PreSubmit")
      case (Some m)
      with fr vi show ?thesis
        by (intro presubmit_rejected[of r m])
           (simp_all add: run_def b submit_stage_shape failure_write_def)
    next
      case None
      note u0 = None
      show ?thesis
      proof (cases "submit_result w")
        case (Inl m)
        with fr vi u0 show ?thesis
          by (intro submit_rejected[of r m])
             (simp_all add: run_def b submit_stage_shape failure_write_def head_events_def)
      next
        case (Inr resp)
        note sr = Inr
        show ?thesis
        proof (cases "accepted resp")
          case False
          with fr vi u0 sr show ?thesis
            by (intro submit_refused[of r resp])
               (simp_all add: run_def b submit_stage_shape failure_write_def head_events_def)
        next
          case True
          note ac = True
          show ?thesis
          proof (cases "sb_data (sr_body resp)")
            case None
            with fr vi u0 sr ac show ?thesis
              by (intro no_data[of r resp])
                 (simp_all add: run_def b submit_stage_shape poll_stage_shape failure_write_def
                   head_events_def)
          next
            case (Some d)
            note sd = Some
            show ?thesis
            proof (cases "update_result w PersistJobId")
              case (Some m)
              with fr vi u0 sr ac sd show ?thesis
                by (intro persist_rejected[of r resp d m])
                   (simp_all add: run_def b submit_stage_shape poll_stage_shape failure_write_def
                     head_events_def)
            next
              case None
              obtain es res where lp: "poll_loop v w (sd_id d) 0 False = (es, res)"
                by (cases "poll_loop v w (sd_id d) 0 False")
              with fr vi u0 sr ac sd None show ?thesis
                by (intro polling[of r resp d es res])
                   (auto simp add: run_def b submit_stage_shape poll_stage_shape failure_write_def
                     head_events_def closing_def split: option.splits)
            qed
          qed
        qed
      qed
    qed
  qed
qed

lemma written_failure [simp]:
  "written (failure_write w e) ''status'' = Some (JStr ''Failed'')"
  "written (failure_write w e) ''error_log''
     = Some (JStr (''Error: '' @ message e @ nl @ ''Time: '' @ iso w Failure))"
  by (simp_all add: failure_write_def failure_fields_def)

lemma failure_write_kind [simp]:
  "\<not> is_poll (failure_write w e)"
  "\<not> is_submit (failure_write w e)"
  "failure_write w e \<noteq> ESubmit p s"
  "failure_write w e \<noteq> EPoll j r"
  "failure_write w e \<noteq> ESleep n"
  "ESubmit p s \<noteq> failure_write w e"
  "EPoll j r \<noteq> failure_write w e"
  "ESleep n \<noteq> failure_write w e"
  by (simp_all add: failure_write_def)

lemma failure_write_eq [simp]:
  "(EUpdate f u = failure_write w e) = (f = failure_fields w e \<and> u = update_result w Failure)"
  "(failure_write w e = EUpdate f u) = (f = failure_fields w e \<and> u = update_result w Failure)"
  by (auto simp: failure_write_def)

lemma is_submit_loop: "ev \<in> set (fst (poll_loop v w j a c)) \<Longrightarrow> \<not> is_submit ev"
  using loop_event_loop[of ev v w j a c] by (auto simp: loop_event_def)

lemma run_submit:
  assumes "ESubmit p s \<in> set (fst (run v w))"
  shows "\<exists>r. find_result w = Inr r \<and> valid_inputs r \<and> update_result w PreSubmit = None
           \<and> p = submitPayload v r \<and> s = submit_result w"
proof (cases rule: run_cases[of w v])
  case (polling r resp d es res)
  have "ESubmit p s \<notin> set es"
    using is_submit_loop[of "ESubmit p s" v w "sd_id d" 0 False] polling(8) by auto
  with assms polling show ?thesis
    by (auto simp: head_events_def closing_def split: option.splits)
qed (use assms in \<open>auto simp: head_events_def\<close>)


lemma scenario_record_valid [simp]: "valid_inputs scenario_record"
  by (simp add: valid_inputs_def scenario_record_def first_url_def truthy_def)

lemma scenario_world_simps [simp]:
  "find_result scenario_world = Inr scenario_record"
  "update_result scenario_world s = None"
  "download_result scenario_world = None"
  "iso scenario_world s = ''2024-01-01T00:00:00.000Z''"
  by (simp_all add: scenario_world_def)

lemma refusing_world_simps [simp]:
  "find_result refusing_world = Inr scenario_record"
  "update_result refusing_world s = None"
  "submit_result refusing_world = Inr \<lparr>sr_ok = False,
       sr_body = \<lparr>sb_code = Some 401, sb_message = Some ''Unauthorized'', sb_data = None\<rparr>\<rparr>"
  "iso refusing_world s = ''2024-01-01T00:00:00.000Z''"
  by (simp_all add: refusing_world_def)


lemma run_scenario_submit:
  "ESubmit (submitPayload v scenario_record) (submit_result scenario_world)
     \<in> set (fst (run v scenario_world))"
  by (cases rule: run_cases[of scenario_world v]) (auto simp: head_events_def)

lemma run_submit_accepted:
  assumes "ESubmit p (Inr resp) \<in> set (fst (run v w))" and "accepted resp"
  obtains
    (no_data) r where "find_result w = Inr r" "sb_data (sr_body resp) = None"
      "run v w = (head_events v w r @ [failure_write w TypeError], Some TypeError)"
  | (persist_rejected) r d m where "find_result w = Inr r" "sb_data (sr_body resp) = Some d"
      "update_result w PersistJobId = Some m"
      "run v w = (head_events v w r @ [EUpdate (persist_fields w (sd_id d)) (Some m),
                    failure_write w (ExternalError m)], Some (ExternalError m))"
  | (polling) r d es res where "find_result w = Inr r" "sb_data (sr_body resp) = Some d"
      "update_result w PersistJobId = None"
      "poll_loop v w (sd_id d) 0 False = (es, res)"
      "run v w = (head_events v w r @ EUpdate (persist_fields w (sd_id d)) None # es
                    @ closing w res, caught res)"
proof -
  from run_submit[OF assms(1)] have sr: "submit_result w = Inr resp" by auto
  show ?thesis
  proof (cases rule: run_cases[of w v])
    case (no_data r resp')
    with sr show ?thesis by (intro that(1)[of r]) auto
  next
    case (persist_rejected r resp' d m)
    with sr show ?thesis by (intro that(2)[of r d m]) auto
  next
    case (polling r resp' d es res)
    with sr show ?thesis by (intro that(3)[of r d es res]) auto
  qed (use sr assms(2) run_submit[OF assms(1)] in auto)
qed

lemma no_polls_head [simp]: "no_polls (head_events v w r)"
  by (simp add: head_events_def)

lemma no_polls_closing [simp]: "no_polls (closing w res)"
  by (simp add: closing_def split: option.splits)

lemma persist_written [simp]:
  "map_of (persist_fields w j) ''job_id'' = Some (str_val j)"
  "map_of (persist_fields w j) ''status'' = Some (JStr ''Processing...'')"
  by (simp_all add: persist_fields_def)

lemma run_polling:
  assumes "find_result w = Inr r" "valid_inputs r" "update_result w PreSubmit = None"
    "submit_result w = Inr resp" "accepted resp" "sb_data (sr_body resp) = Some d"
    "update_result w PersistJobId = None"
  shows "run v w =
    (head_events v w r @ EUpdate (persist_fields w (sd_id d)) None
       # fst (poll_loop v w (sd_id d) 0 False) @ closing w (snd (poll_loop v w (sd_id d) 0 False)),
     caught (snd (poll_loop v w (sd_id d) 0 False)))"
  by (cases rule: run_cases[of w v]) (use assms in auto)

lemma poll_loop_first_completed:
  assumes "update_result w (Progress 1) = None" "poll_result w 1 = Inr b"
    "status_of b = Some ''completed''" "outputs_of b = Some (u # us)" "u \<noteq> []"
    "v = ServerJs \<longrightarrow> download_result w = None"
  shows "poll_loop v w j 0 False =
    (progress_prefix w j 1 @ EPoll j (Inr b) # download_events v w u
       @ [EUpdate (success_fields v w (elapsed_at w 1) u) (update_result w Success)],
     case update_result w Success of Some m \<Rightarrow> Inl (ExternalError m) | None \<Rightarrow> Inr True)"
proof -
  from assms(3,4) obtain d where d: "pb_data b = Some d" "pd_status d = Some ''completed''"
    "pd_outputs d = Some (u # us)"
    by (auto simp: status_of_def outputs_of_def split: option.splits)
  have st: "poll_step v w j (Suc 0) =
    (progress_prefix w j 1 @ EPoll j (Inr b) # download_events v w u
       @ [EUpdate (success_fields v w (elapsed_at w 1) u) (update_result w Success)],
     case update_result w Success of Some m \<Rightarrow> Inl (ExternalError m) | None \<Rightarrow> Inr True)"
    using assms d
    by (auto simp: poll_step_shape on_result_shape on_completed_shape first_output_def)
  show ?thesis
  proof (cases "update_result w Success")
    case None
    with st show ?thesis by (simp add: poll_loop_done maxAttempts_def)
  next
    case (Some m)
    with st show ?thesis by (simp add: poll_loop_throw maxAttempts_def)
  qed
qed

lemma scenario_world_calls [simp]:
  "submit_result scenario_world = Inr \<lparr>sr_ok = True,
     sr_body = \<lparr>sb_code = Some 200, sb_message = None, sb_data = Some \<lparr>sd_id = Some ''job1''\<rparr>\<rparr>\<rparr>"
  "poll_result scenario_world a = Inr \<lparr>pb_data = Some \<lparr>pd_status = Some ''completed'',
     pd_outputs = Some [''http://out/video.mp4''], pd_error = None\<rparr>\<rparr>"
  by (simp_all add: scenario_world_def)

lemma run_scenario:
  "run v scenario_world =
    (head_events v scenario_world scenario_record
       @ EUpdate (persist_fields scenario_world (Some ''job1'')) None
       # progress_prefix scenario_world (Some ''job1'') 1
       @ EPoll (Some ''job1'') (poll_result scenario_world 1)
       # download_events v scenario_world ''http://out/video.mp4''
       @ [EUpdate (success_fields v scenario_world (elapsed_at scenario_world 1)
            ''http://out/video.mp4'') None],
     None)"
proof -
  have lp: "poll_loop v scenario_world (Some ''job1'') 0 False =
    (progress_prefix scenario_world (Some ''job1'') 1
       @ EPoll (Some ''job1'') (poll_result scenario_world 1)
       # download_events v scenario_world ''http://out/video.mp4''
       @ [EUpdate (success_fields v scenario_world (elapsed_at scenario_world 1)
            ''http://out/video.mp4'') None],
     Inr True)"
    using poll_loop_first_completed[of scenario_world _ "''http://out/video.mp4''" "[]" v "Some ''job1''"]
    by (simp add: status_of_def outputs_of_def)
  show ?thesis
    using run_polling[of scenario_world scenario_record _ "\<lparr>sd_id = Some ''job1''\<rparr>" v]
    by (simp add: accepted_def lp closing_def caught_def)
qed

lemma idless_world_simps [simp]:
  "find_result idless_world = Inr scenario_record"
  "update_result idless_world s = None"
  "submit_result idless_world = Inr \<lparr>sr_ok = True,
         sr_body = \<lparr>sb_code = Some 200, sb_message = None, sb_data = Some \<lparr>sd_id = None\<rparr>\<rparr>\<rparr>"
  "poll_result idless_world a = Inl ''invalid json response body''"
  by (simp_all add: idless_world_def)

lemma poll_loop_first_rejected:
  assumes "update_result w (Progress 1) = None" "poll_result w 1 = Inl m"
  shows "poll_loop v w j 0 False =
    (progress_prefix w j 1 @ [EPoll j (Inl m)], Inl (ExternalError m))"
proof -
  have "poll_step v w j (Suc 0) = (progress_prefix w j 1 @ [EPoll j (Inl m)], Inl (ExternalError m))"
    using assms by (simp add: poll_step_shape)
  then show ?thesis by (simp add: poll_loop_throw maxAttempts_def)
qed

lemma run_idless:
  "run v idless_world =
    (head_events v idless_world scenario_record
       @ EUpdate (persist_fields idless_world None) None
       # progress_prefix idless_world None 1
       @ [EPoll None (Inl ''invalid json response body''),
          failure_write idless_world (ExternalError ''invalid json response body'')],
     Some (ExternalError ''invalid json response body''))"
  using run_polling[of idless_world scenario_record _ "\<lparr>sd_id = None\<rparr>" v]
    poll_loop_first_rejected[of idless_world "''invalid json response body''" v None]
  by (simp add: accepted_def closing_def caught_def)

lemma poll_loop_starts:
  "\<exists>rest. fst (poll_loop v w j 0 False) = progress_prefix w j 1 @ rest"
proof -
  obtain es res where st: "poll_step v w j (Suc 0) = (es, res)"
    by (cases "poll_step v w j (Suc 0)")
  then have es: "\<exists>rest. es = progress_prefix w j 1 @ rest"
    by (auto simp: poll_step_shape split: option.splits sum.splits)
  have "\<exists>rest. fst (poll_loop v w j 0 False) = es @ rest"
    by (cases res; cases "projr res")
       (use st in \<open>auto simp: poll_loop_throw poll_loop_done poll_loop_continue maxAttempts_def\<close>)
  with es show ?thesis by auto
qed

lemma loop_error_step: "poll_step v w j a = (es, Inl e) \<Longrightarrow> loop_error e"
  by (auto simp: poll_step_shape on_result_shape on_completed_shape loop_error_def
      split: option.splits sum.splits if_splits)

lemma loop_error_loop: "snd (poll_loop v w j a c) = Inl e \<longrightarrow> loop_error e"
proof (induction a c rule: poll_loop_cases[where v = v and w = w and j = j])
  case (1 a c)
  then show ?case by (simp add: poll_loop_stop)
next
  case (2 a es e')
  then show ?case using loop_error_step[of v w j "Suc a" es e'] by (auto simp add: poll_loop_throw)
next
  case (3 a es)
  then show ?case by (simp add: poll_loop_done)
next
  case (4 a es)
  then show ?case by (simp add: poll_loop_continue)
qed

lemma loop_error_not_submission [simp]: "\<not> loop_error (SubmissionError m)"
  by (simp add: loop_error_def)

lemma caught_loop_not_submission:
  "caught (snd (poll_loop v w j a c)) \<noteq> Some (SubmissionError m)"
  using loop_error_loop[of v w j a c "SubmissionError m"]
  by (auto simp: caught_def split: sum.splits if_splits)

lemma polls_of_run:
  obtains (none) "no_polls (fst (run v w))" "\<exists>e. snd (run v w) = Some e \<and> e \<noteq> TimeoutError"
  | (polling) r and d :: submit_data and es res where
      "poll_loop v w (sd_id d) 0 False = (es, res)"
      "run v w = (head_events v w r @ EUpdate (persist_fields w (sd_id d)) None # es
                    @ closing w res, caught res)"
proof (cases rule: run_cases[of w v])
  case (polling r resp d es res)
  then show ?thesis by (intro that(2)[of d es res r]) auto
qed (auto intro!: that(1))

lemma sleep_first_Cons: "\<not> is_poll x \<Longrightarrow> sleep_first es \<Longrightarrow> sleep_first (x # es)"
  using sleep_first_append[of "[x]" es] by (simp add: sleep_first_no_polls)

lemma last_closing:
  "caught res = Some e \<Longrightarrow> last (xs @ y # es @ closing w res) = failure_write w e"
  by (simp add: closing_def)

lemma poll_step_stalled:
  assumes "update_result w (Progress a) = None" "in_progress (poll_result w a)"
  shows "poll_step v w j a = (progress_prefix w j a @ [EPoll j (poll_result w a)], Inr False)"
proof (cases "poll_result w a")
  case (Inl m)
  with assms(2) show ?thesis by (simp add: in_progress_def)
next
  case (Inr b)
  with assms show ?thesis by (simp add: poll_step_shape in_progress_on_result)
qed

lemma poll_loop_stalled:
  assumes "\<forall>a. update_result w (Progress a) = None" "\<forall>a. in_progress (poll_result w a)"
  shows "length (filter is_poll (fst (poll_loop v w j a c))) = (if c then 0 else maxAttempts - a)
       \<and> (\<forall>j' r. EPoll j' r \<in> set (fst (poll_loop v w j a c)) \<longrightarrow> in_progress r)"
proof (induction a c rule: poll_loop_cases[where v = v and w = w and j = j])
  case (1 a c)
  then show ?case by (auto simp: poll_loop_stop)
next
  case (2 a es e)
  with assms poll_step_stalled[of w "Suc a" v j] show ?case by simp
next
  case (3 a es)
  with assms poll_step_stalled[of w "Suc a" v j] show ?case by simp
next
  case (4 a es)
  from assms poll_step_stalled[of w "Suc a" v j] 4(2)
  have es: "es = progress_prefix w j (Suc a) @ [EPoll j (poll_result w (Suc a))]" by simp
  from 4(1,3) assms(2) show ?case
    by (auto simp: poll_loop_continue[OF 4(1,2)] es polls_none progress_prefix_def)
qed

lemma stalled_world_simps [simp]:
  "find_result stalled_world = Inr scenario_record"
  "update_result stalled_world s = None"
  "submit_result stalled_world = Inr \<lparr>sr_ok = True,
     sr_body = \<lparr>sb_code = Some 200, sb_message = None, sb_data = Some \<lparr>sd_id = Some ''job1''\<rparr>\<rparr>\<rparr>"
  "in_progress (poll_result stalled_world a)"
  by (simp_all add: stalled_world_def scenario_world_def in_progress_def status_of_def)

lemma poll_in_run:
  assumes "fst (run v w) = pre @ EPoll j r # post"
  obtains rec and d :: submit_data and es res pre' post' where
    "poll_loop v w (sd_id d) 0 False = (es, res)"
    "es = pre' @ EPoll j r # post'"
    "pre = head_events v w rec @ EUpdate (persist_fields w (sd_id d)) None # pre'"
    "post = post' @ closing w res"
    "snd (run v w) = caught res"
proof (cases rule: polls_of_run[of v w])
  case none
  with assms show ?thesis by simp
next
  case (polling rec d es res)
  from polling(2) assms have
    "(head_events v w rec @ [EUpdate (persist_fields w (sd_id d)) None]) @ (es @ closing w res)
       = pre @ EPoll j r # post"
    by simp
  from append_split[OF this] obtain zs where
    zs: "pre = (head_events v w rec @ [EUpdate (persist_fields w (sd_id d)) None]) @ zs"
      "es @ closing w res = zs @ EPoll j r # post"
  proof
    assume "\<exists>zs. head_events v w rec @ [EUpdate (persist_fields w (sd_id d)) None]
        = pre @ EPoll j r # zs \<and> post = zs @ es @ closing w res"
    then obtain zs where "head_events v w rec @ [EUpdate (persist_fields w (sd_id d)) None]
        = pre @ EPoll j r # zs" by blast
    then have "no_polls (pre @ EPoll j r # zs)" by (simp flip: \<open>_ = pre @ EPoll j r # zs\<close>)
    then show ?thesis by simp
  qed blast
  from append_split[OF zs(2)] obtain post' where
    "es = zs @ EPoll j r # post'" "post = post' @ closing w res"
  proof
    assume "\<exists>ys. zs = es @ ys \<and> closing w res = ys @ EPoll j r # post"
    then obtain ys where "closing w res = ys @ EPoll j r # post" by blast
    then have "no_polls (ys @ EPoll j r # post)" by (simp flip: \<open>_ = ys @ EPoll j r # post\<close>)
    then show ?thesis by simp
  qed blast
  with polling zs(1) show ?thesis
    by (intro that[of d es res zs post' rec]) simp_all
qed

lemma success_written [simp]:
  "map_of (success_fields v w el u) ''output_video''
     = Some (case v of ServerJs \<Rightarrow> JAttachments [u] | Part000 \<Rightarrow> JStr u)"
  "map_of (success_fields v w el u) ''status'' = Some (JStr ''Completed'')"
  by (simp_all add: success_fields_def)

lemma on_completed_success:
  assumes "pd_outputs d = Some (u # us)" "u \<noteq> []" "v = ServerJs \<longrightarrow> download_result w = None"
  shows "on_completed v w el d =
    (download_events v w u @ [EUpdate (success_fields v w el u) (update_result w Success)],
     case update_result w Success of Some m \<Rightarrow> Inl (ExternalError m) | None \<Rightarrow> Inr True)"
  using assms by (auto simp: on_completed_shape first_output_def)

lemma completed_body_simps [simp]:
  "status_of (completed_body os) = Some ''completed''"
  "outputs_of (completed_body os) = Some os"
  by (simp_all add: completed_body_def status_of_def outputs_of_def)

lemma poll_loop_first_throws:
  "poll_step v w j (Suc 0) = (es, Inl e) \<Longrightarrow> poll_loop v w j 0 False = (es, Inl e)"
  by (simp add: poll_loop_throw maxAttempts_def)

lemma blank_output_world_simps [simp]:
  "find_result blank_output_world = Inr scenario_record"
  "update_result blank_output_world s = None"
  "submit_result blank_output_world = submit_result scenario_world"
  "poll_result blank_output_world a = Inr (completed_body [[]])"
  by (simp_all add: blank_output_world_def completed_body_def)

lemma download_failing_world_simps [simp]:
  "find_result download_failing_world = Inr scenario_record"
  "update_result download_failing_world s = None"
  "submit_result download_failing_world = submit_result scenario_world"
  "poll_result download_failing_world a = Inr (completed_body [''http://out/video.mp4''])"
  "download_result download_failing_world = Some ''socket hang up''"
  by (simp_all add: download_failing_world_def completed_body_def)

lemma writes_output_video_failure [simp]: "\<not> writes_output_video (failure_write w e)"
  by (simp add: failure_write_def)

lemma run_blank_output:
  "run v blank_output_world =
    (head_events v blank_output_world scenario_record
       @ EUpdate (persist_fields blank_output_world (Some ''job1'')) None
       # progress_prefix blank_output_world (Some ''job1'') 1
       @ [EPoll (Some ''job1'') (Inr (completed_body [[]])),
          failure_write blank_output_world ResultError],
     Some ResultError)"
proof -
  have "poll_step v blank_output_world (Some ''job1'') (Suc 0) =
      (progress_prefix blank_output_world (Some ''job1'') 1
         @ [EPoll (Some ''job1'') (Inr (completed_body [[]]))], Inl ResultError)"
    by (simp add: poll_step_shape on_result_shape on_completed_shape first_output_def)
       (simp add: completed_body_def)
  from poll_loop_first_throws[OF this]
    run_polling[of blank_output_world scenario_record _ "\<lparr>sd_id = Some ''job1''\<rparr>" v]
  show ?thesis by (simp add: accepted_def closing_def caught_def)
qed

lemma run_download_failing:
  "run ServerJs download_failing_world =
    (head_events ServerJs download_failing_world scenario_record
       @ EUpdate (persist_fields download_failing_world (Some ''job1'')) None
       # progress_prefix download_failing_world (Some ''job1'') 1
       @ [EPoll (Some ''job1'') (Inr (completed_body [''http://out/video.mp4''])),
          EDownload ''http://out/video.mp4'' (Some ''socket hang up''),
          failure_write download_failing_world (ExternalError ''socket hang up'')],
     Some (ExternalError ''socket hang up''))"
proof -
  have "poll_step ServerJs download_failing_world (Some ''job1'') (Suc 0) =
      (progress_prefix download_failing_world (Some ''job1'') 1
         @ [EPoll (Some ''job1'') (Inr (completed_body [''http://out/video.mp4''])),
            EDownload ''http://out/video.mp4'' (Some ''socket hang up'')],
       Inl (ExternalError ''socket hang up''))"
    by (simp add: poll_step_shape on_result_shape on_completed_shape first_output_def)
       (simp add: completed_body_def download_events_def)
  from poll_loop_first_throws[OF this]
    run_polling[of download_failing_world scenario_record _ "\<lparr>sd_id = Some ''job1''\<rparr>" ServerJs]
  show ?thesis by (simp add: accepted_def closing_def caught_def)
qed

lemma progress_fields_distinct [simp]:
  "presubmit_fields v w r \<noteq> progress_fields j a el"
  "persist_fields w j' \<noteq> progress_fields j a el"
  "failure_fields w e \<noteq> progress_fields j a el"
  "success_fields v w el' u \<noteq> progress_fields j a el"
  "progress_fields j a el \<noteq> presubmit_fields v w r"
  "progress_fields j a el \<noteq> persist_fields w j'"
  "progress_fields j a el \<noteq> failure_fields w e"
  "progress_fields j a el \<noteq> success_fields v w el' u"
  by (simp_all add: presubmit_fields_def persist_fields_def failure_fields_def
      success_fields_def progress_fields_def)

lemma rejected_update_in_loop:
  assumes "poll_loop v w j a c = (es, res)" and "EUpdate f (Some m) \<in> set es"
  shows "res = Inl (ExternalError m) \<and> (\<exists>pre. es = pre @ [EUpdate f (Some m)])"
proof -
  from rejected_last_loop[of v w j a c] assms
  have "res = Inl (ExternalError m)" "es \<noteq> []" "last es = EUpdate f (Some m)"
    by (auto simp: rejected_last_def)
  moreover from this(2,3) have "es = butlast es @ [EUpdate f (Some m)]"
    using append_butlast_last_id[of es] by simp
  ultimately show ?thesis by blast
qed

lemma flaky_store_world_simps [simp]:
  "find_result flaky_store_world = Inr scenario_record"
  "update_result flaky_store_world PreSubmit = None"
  "update_result flaky_store_world PersistJobId = None"
  "update_result flaky_store_world (Progress (Suc 0)) = Some ''RATE_LIMIT_REACHED''"
  "submit_result flaky_store_world = submit_result scenario_world"
  by (simp_all add: flaky_store_world_def)

lemma run_flaky_store:
  "run v flaky_store_world =
    (head_events v flaky_store_world scenario_record
       @ [EUpdate (persist_fields flaky_store_world (Some ''job1'')) None,
          ESleep 5000,
          EUpdate (progress_fields (Some ''job1'') 1 (elapsed_at flaky_store_world 1))
            (Some ''RATE_LIMIT_REACHED''),
          failure_write flaky_store_world (ExternalError ''RATE_LIMIT_REACHED'')],
     Some (ExternalError ''RATE_LIMIT_REACHED''))"
proof -
  have "poll_step v flaky_store_world (Some ''job1'') (Suc 0) =
      (progress_prefix flaky_store_world (Some ''job1'') 1,
       Inl (ExternalError ''RATE_LIMIT_REACHED''))"
    by (simp add: poll_step_shape)
  from poll_loop_first_throws[OF this]
    run_polling[of flaky_store_world scenario_record _ "\<lparr>sd_id = Some ''job1''\<rparr>" v]
  show ?thesis by (simp add: accepted_def closing_def caught_def progress_prefix_def)
qed

lemma success_write_mono: "success_write v w tr f \<Longrightarrow> set tr \<subseteq> set tr' \<Longrightarrow> success_write v w tr' f"
  unfolding success_write_def by blast

lemma update_in_download [simp]: "EUpdate f u \<notin> set (download_events v w vu)"
  by (cases v) (simp_all add: download_events_def)

lemma video_write_on_result:
  assumes "EUpdate f u \<in> set (fst (on_result v w el b))"
  shows "status_of b = Some ''completed'' \<and>
         (\<exists>vu. first_output (outputs_of b) = Some vu \<and> vu \<noteq> [] \<and> f = success_fields v w el vu)"
proof -
  from assms have st: "status_of b = Some ''completed''"
    by (auto simp: on_result_shape split: if_splits)
  then obtain d where d: "pb_data b = Some d"
    by (auto simp: status_of_def split: option.splits)
  with st assms have "EUpdate f u \<in> set (fst (on_completed v w el d))"
    by (simp add: on_result_shape)
  then have "\<exists>vu. first_output (pd_outputs d) = Some vu \<and> vu \<noteq> [] \<and> f = success_fields v w el vu"
    by (auto simp: on_completed_shape split: option.splits if_splits)
  with st d show ?thesis by (simp add: outputs_of_def)
qed

lemma video_write_step:
  assumes "EUpdate f u \<in> set (fst (poll_step v w j a))" and "''output_video'' \<in> keys f"
  shows "success_write v w (fst (poll_step v w j a)) f"
proof (cases "update_result w (Progress a)")
  case (Some m)
  with assms show ?thesis by (auto simp: poll_step_shape progress_prefix_def)
next
  case None
  show ?thesis
  proof (cases "poll_result w a")
    case (Inl m)
    with None assms show ?thesis by (auto simp: poll_step_shape progress_prefix_def)
  next
    case (Inr b)
    with None assms have "EUpdate f u \<in> set (fst (on_result v w (elapsed_at w a) b))"
      by (auto simp: poll_step_shape progress_prefix_def)
    from video_write_on_result[OF this] None Inr show ?thesis
      unfolding success_write_def by (auto simp: poll_step_shape)
  qed
qed

lemma video_write_loop:
  "EUpdate f u \<in> set (fst (poll_loop v w j a c)) \<longrightarrow> ''output_video'' \<in> keys f \<longrightarrow>
   success_write v w (fst (poll_loop v w j a c)) f"
proof (induction a c rule: poll_loop_cases[where v = v and w = w and j = j])
  case (1 a c)
  then show ?case by (simp add: poll_loop_stop)
next
  case (2 a es e)
  then show ?case using video_write_step[of f u v w j "Suc a"] by (simp add: poll_loop_throw)
next
  case (3 a es)
  then show ?case using video_write_step[of f u v w j "Suc a"] by (simp add: poll_loop_done)
next
  case (4 a es)
  note loop = poll_loop_continue[OF 4(1,2)]
  show ?case
  proof (intro impI)
    assume ev: "EUpdate f u \<in> set (fst (poll_loop v w j a False))"
      and k: "''output_video'' \<in> keys f"
    from ev have "EUpdate f u \<in> set es \<or> EUpdate f u \<in> set (fst (poll_loop v w j (Suc a) False))"
      by (simp add: loop)
    then show "success_write v w (fst (poll_loop v w j a False)) f"
    proof
      assume "EUpdate f u \<in> set es"
      with video_write_step[of f u v w j "Suc a"] k 4(2) have "success_write v w es f" by simp
      then show ?thesis by (rule success_write_mono) (simp add: loop)
    next
      assume "EUpdate f u \<in> set (fst (poll_loop v w j (Suc a) False))"
      with 4(3) k have "success_write v w (fst (poll_loop v w j (Suc a) False)) f" by simp
      then show ?thesis by (rule success_write_mono) (simp add: loop)
    qed
  qed
qed

lemma update_in_loop_keys:
  assumes "EUpdate f u \<in> set (fst (poll_loop v w j a c))" and "''output_video'' \<notin> keys f"
  shows "keys f = {''status'', ''error_log''}"
  using loop_event_loop[OF assms(1)] assms(2) by (auto simp: loop_event_def)

lemma no_video_writes_head [simp]:
  "filter writes_output_video (head_events v w r) = []"
  by (simp add: head_events_def)

lemma no_video_writes_closing [simp]:
  "filter writes_output_video (closing w res) = []"
  by (simp add: closing_def split: option.splits)

lemma poll_job_id_loop: "EPoll j' r \<in> set (fst (poll_loop v w j a c)) \<Longrightarrow> j' = j"
  using loop_event_loop[of "EPoll j' r" v w j a c] by (auto simp: loop_event_def)

lemma silent_refusal_world_simps [simp]:
  "find_result silent_refusal_world = Inr scenario_record"
  "update_result silent_refusal_world s = None"
  "submit_result silent_refusal_world = Inr \<lparr>sr_ok = False,
       sr_body = \<lparr>sb_code = Some 500, sb_message = Some [], sb_data = None\<rparr>\<rparr>"
  "iso silent_refusal_world s = ''2024-01-01T00:00:00.000Z''"
  by (simp_all add: silent_refusal_world_def)



lemma unparsable_refusal_world_simps [simp]:
  "find_result unparsable_refusal_world = Inr scenario_record"
  "update_result unparsable_refusal_world s = None"
  "submit_result unparsable_refusal_world = Inl ''invalid json response body''"
  "iso unparsable_refusal_world s = ''2024-01-01T00:00:00.000Z''"
  by (simp_all add: unparsable_refusal_world_def)


text \<open>
  Every run with an accepted submission (response \<^verbatim>\<open>ok\<close>, \<^verbatim>\<open>code\<close> 200): without
  \<^verbatim>\<open>data\<close> the read of \<^verbatim>\<open>data.id\<close> throws; with \<^verbatim>\<open>data\<close> but no \<^verbatim>\<open>id\<close>
  the run goes on with the undefined id: the update of \<^verbatim>\<open>job_id\<close>, then the loop, whose
  first poll is issued once the first progress update is accepted.
\<close>

lemma poll_loop_first_poll:
  assumes "update_result w (Progress 1) = None"
  shows "\<exists>rest. fst (poll_loop v w j 0 False)
           = progress_prefix w j 1 @ EPoll j (poll_result w 1) # rest"
proof -
  obtain es res where st: "poll_step v w j (Suc 0) = (es, res)"
    by (cases "poll_step v w j (Suc 0)")
  with assms have es: "\<exists>rest. es = progress_prefix w j 1 @ EPoll j (poll_result w 1) # rest"
    by (auto simp: poll_step_shape split: sum.splits)
  have "\<exists>rest. fst (poll_loop v w j 0 False) = es @ rest"
    by (cases res; cases "projr res")
       (use st in \<open>auto simp: poll_loop_throw poll_loop_done poll_loop_continue maxAttempts_def\<close>)
  with es show ?thesis by auto
qed

lemma accepted_submission_without_job_id:
  assumes "ESubmit p (Inr resp) \<in> set (fst (run v w))"
    and "sr_ok resp" and "sb_code (sr_body resp) = Some 200"
  shows "(sb_data (sr_body resp) = None \<longrightarrow>
            snd (run v w) = Some TypeError
          \<and> last (fst (run v w)) = failure_write w TypeError
          \<and> written (last (fst (run v w))) ''status'' = Some (JStr ''Failed'')
          \<and> (\<forall>f u. EUpdate f u \<in> set (fst (run v w)) \<longrightarrow> ''job_id'' \<notin> keys f)
          \<and> no_polls (fst (run v w)))
       \<and> (\<forall>d. sb_data (sr_body resp) = Some d \<longrightarrow> sd_id d = None \<longrightarrow>
            (\<exists>pre u post.
                fst (run v w) = pre @ EUpdate (persist_fields w None) u # post
              \<and> written (EUpdate (persist_fields w None) u) ''job_id'' = Some JUndefined
              \<and> written (EUpdate (persist_fields w None) u) ''status'' = Some (JStr ''Processing...'')
              \<and> (u = None \<longrightarrow> (\<exists>rest. post = progress_prefix w None 1 @ rest))))
       \<and> (\<forall>m. snd (run v w) \<noteq> Some (SubmissionError m))"
proof -
  from assms(2,3) have ac: "accepted resp" by (simp add: accepted_def)
  from assms(1) ac show ?thesis
  proof (cases rule: run_submit_accepted)
    case (no_data r)
    then show ?thesis by (auto simp: head_events_def)
  next
    case (persist_rejected r d m)
    then have "fst (run v w) = head_events v w r
        @ EUpdate (persist_fields w (sd_id d)) (Some m) # [failure_write w (ExternalError m)]"
      by simp
    with persist_rejected show ?thesis by (auto simp: str_val_def)
  next
    case (polling r d es res)
    from poll_loop_starts[of v w "sd_id d"] polling(4) obtain rest where
      es: "es = progress_prefix w (sd_id d) 1 @ rest" by auto
    from polling have tr: "fst (run v w) = head_events v w r
        @ EUpdate (persist_fields w (sd_id d)) None # (es @ closing w res)"
      by simp
    have "\<forall>m. snd (run v w) \<noteq> Some (SubmissionError m)"
      using caught_loop_not_submission[of v w "sd_id d" 0 False] polling(4,5) by simp
    with polling(2) tr es show ?thesis by (auto simp: str_val_def)
  qed
qed

section \<open>The claims\<close>

text \<open>
  C1, as stated, fails in two ways. In \<^verbatim>\<open>src/server.js\<close> the video is downloaded
  before the update, and a failed download leaves \<^verbatim>\<open>output_video\<close> unwritten. In both
  variants \<^verbatim>\<open>if (!videoUrl)\<close> refuses a first output that is the empty string, though
  the list is not empty.
\<close>

theorem C1_counterexample:
  "EPoll (Some ''job1'') (Inr (completed_body [''http://out/video.mp4'']))
      \<in> set (fst (run ServerJs download_failing_world))
   \<and> status_of (completed_body [''http://out/video.mp4'']) = Some ''completed''
   \<and> outputs_of (completed_body [''http://out/video.mp4'']) = Some [''http://out/video.mp4'']
   \<and> filter writes_output_video (fst (run ServerJs download_failing_world)) = []
   \<and> snd (run ServerJs download_failing_world) = Some (ExternalError ''socket hang up'')
   \<and> EPoll (Some ''job1'') (Inr (completed_body [[]])) \<in> set (fst (run Part000 blank_output_world))
   \<and> outputs_of (completed_body [[]]) = Some [[]]
   \<and> filter writes_output_video (fst (run Part000 blank_output_world)) = []
   \<and> snd (run Part000 blank_output_world) = Some ResultError"
  by (simp add: run_blank_output run_download_failing head_events_def progress_prefix_def)

text \<open>
  C1, amended. After a poll answered \<^verbatim>\<open>completed\<close> no further poll request is
  issued. When moreover the first element of \<^verbatim>\<open>outputs\<close> is a non-empty string and, in
  \<^verbatim>\<open>src/server.js\<close>, the download of that URL succeeds, the next store call is the
  update writing \<^verbatim>\<open>output_video\<close> (the bare URL in \<^verbatim>\<open>src/unnamed/part_000\<close>, the
  one-element attachment list of that URL in \<^verbatim>\<open>src/server.js\<close>) and
  \<^verbatim>\<open>status: 'Completed'\<close>; when the store accepts it the run ends there without error.
\<close>

theorem C1_completed_poll_writes_first_output_and_stops_polling:
  assumes "fst (run v w) = pre @ EPoll j (Inr b) # post"
    and "status_of b = Some ''completed''"
  shows "no_polls post
       \<and> (\<forall>u us. outputs_of b = Some (u # us) \<longrightarrow> u \<noteq> [] \<longrightarrow>
            (v = ServerJs \<longrightarrow> download_result w = None) \<longrightarrow>
            (\<exists>el st rest.
                post = download_events v w u @ EUpdate (success_fields v w el u) st # rest
              \<and> written (EUpdate (success_fields v w el u) st) ''output_video''
                  = Some (case v of ServerJs \<Rightarrow> JAttachments [u] | Part000 \<Rightarrow> JStr u)
              \<and> written (EUpdate (success_fields v w el u) st) ''status'' = Some (JStr ''Completed'')
              \<and> (st = None \<longrightarrow> rest = [] \<and> snd (run v w) = None)))"
proof -
  from assms(1) obtain rec and d :: submit_data and es res pre' post' where
    lp: "poll_loop v w (sd_id d) 0 False = (es, res)"
    and es: "es = pre' @ EPoll j (Inr b) # post'"
    and post: "post = post' @ closing w res"
    and out: "snd (run v w) = caught res"
    by (rule poll_in_run)
  from assms(2) have nt: "\<not> in_progress (Inr b)" by (simp add: in_progress_def)
  from assms(2) obtain pd where pd: "pb_data b = Some pd" "pd_status pd = Some ''completed''"
    by (auto simp: status_of_def split: option.splits)
  have "fst (poll_loop v w (sd_id d) 0 False) = pre' @ EPoll j (Inr b) # post'"
    by (simp add: lp es)
  with poll_loop_decomp[of v w "sd_id d" 0 False j "Inr b"] nt
  have "\<exists>a. poll_outcome v w a (Inr b) post' (snd (poll_loop v w (sd_id d) 0 False))"
    by blast
  then obtain a where "poll_outcome v w a (Inr b) post' res" by (auto simp: lp)
  then have post': "post' = fst (on_result v w (elapsed_at w a) b)"
    and res: "res = snd (on_result v w (elapsed_at w a) b)"
    by (simp_all add: poll_outcome_def)
  have oc: "on_result v w (elapsed_at w a) b = on_completed v w (elapsed_at w a) pd"
    using pd by (simp add: on_result_def)
  have 1: "no_polls post" by (simp add: post post')
  have 2: "\<exists>el st rest.
                post = download_events v w u @ EUpdate (success_fields v w el u) st # rest
              \<and> written (EUpdate (success_fields v w el u) st) ''output_video''
                  = Some (case v of ServerJs \<Rightarrow> JAttachments [u] | Part000 \<Rightarrow> JStr u)
              \<and> written (EUpdate (success_fields v w el u) st) ''status'' = Some (JStr ''Completed'')
              \<and> (st = None \<longrightarrow> rest = [] \<and> snd (run v w) = None)"
    if o: "outputs_of b = Some (u # us)" and u: "u \<noteq> []"
      and dl: "v = ServerJs \<longrightarrow> download_result w = None" for u us
  proof -
    from o pd have "pd_outputs pd = Some (u # us)" by (simp add: outputs_of_def)
    from on_completed_success[OF this u dl, of "elapsed_at w a"]
    have p: "post = download_events v w u
          @ EUpdate (success_fields v w (elapsed_at w a) u) (update_result w Success) # closing w res"
      and r: "res = (case update_result w Success of
                Some m \<Rightarrow> Inl (ExternalError m) | None \<Rightarrow> Inr True)"
      by (simp_all add: post post' res oc)
    from r have "update_result w Success = None \<longrightarrow> closing w res = [] \<and> caught res = None"
      by (simp add: closing_def caught_def)
    with p out show ?thesis by (intro exI conjI) (assumption, simp_all)
  qed
  from 1 2 show ?thesis by blast
qed

theorem C1_witness:
  "status_of (completed_body [''http://out/video.mp4'']) = Some ''completed''
   \<and> (\<exists>pre post el st rest.
         fst (run ServerJs scenario_world)
           = pre @ EPoll (Some ''job1'') (Inr (completed_body [''http://out/video.mp4''])) # post
       \<and> post = download_events ServerJs scenario_world ''http://out/video.mp4''
           @ EUpdate (success_fields ServerJs scenario_world el ''http://out/video.mp4'') st # rest
       \<and> written (EUpdate (success_fields ServerJs scenario_world el ''http://out/video.mp4'') st)
           ''output_video'' = Some (JAttachments [''http://out/video.mp4''])
       \<and> no_polls post)"
proof -
  let ?b = "completed_body [''http://out/video.mp4'']"
  let ?pre = "head_events ServerJs scenario_world scenario_record
       @ EUpdate (persist_fields scenario_world (Some ''job1'')) None
       # progress_prefix scenario_world (Some ''job1'') 1"
  let ?post = "download_events ServerJs scenario_world ''http://out/video.mp4''
       @ [EUpdate (success_fields ServerJs scenario_world (elapsed_at scenario_world 1)
            ''http://out/video.mp4'') None]"
  have tr: "fst (run ServerJs scenario_world) = ?pre @ EPoll (Some ''job1'') (Inr ?b) # ?post"
    by (simp add: run_scenario completed_body_def)
  have st: "status_of ?b = Some ''completed''" by simp
  note c1 = C1_completed_poll_writes_first_output_and_stops_polling[OF tr st]
  from c1 have np: "no_polls ?post" by (rule conjunct1)
  from c1 have "\<exists>el st rest.
         ?post = download_events ServerJs scenario_world ''http://out/video.mp4''
           @ EUpdate (success_fields ServerJs scenario_world el ''http://out/video.mp4'') st # rest
       \<and> written (EUpdate (success_fields ServerJs scenario_world el ''http://out/video.mp4'') st)
           ''output_video'' = Some (JAttachments [''http://out/video.mp4''])"
    by simp
  with tr np st show ?thesis by blast
qed

text \<open>
  C2. Every run issues at most 120 poll requests; each of them comes right after a
  5-second sleep and the progress update that follows the sleep, so no poll request is
  issued before the first sleep; and a run whose 120 poll requests were all answered with
  a status that is neither \<^verbatim>\<open>completed\<close> nor \<^verbatim>\<open>failed\<close> throws the timeout error
  and ends with the \<^verbatim>\<open>status: 'Failed'\<close> update.
\<close>

theorem C2_at_most_120_polls_each_after_sleep_then_timeout:
  "length (filter is_poll (fst (run v w))) \<le> 120
   \<and> (\<forall>pre j r post. fst (run v w) = pre @ EPoll j r # post \<longrightarrow>
         (\<exists>pre' f. pre = pre' @ [ESleep 5000, EUpdate f None]))
   \<and> (length (filter is_poll (fst (run v w))) = 120 \<longrightarrow>
       (\<forall>j r. EPoll j r \<in> set (fst (run v w)) \<longrightarrow> in_progress r) \<longrightarrow>
         snd (run v w) = Some TimeoutError
       \<and> last (fst (run v w)) = failure_write w TimeoutError
       \<and> written (last (fst (run v w))) ''status'' = Some (JStr ''Failed''))"
proof (cases rule: polls_of_run[of v w])
  case none
  then have "sleep_first (fst (run v w))" by (simp add: sleep_first_no_polls)
  with none show ?thesis by (simp add: polls_none sleep_first_def)
next
  case (polling r d es res)
  from polling(1) have es: "es = fst (poll_loop v w (sd_id d) 0 False)"
    and res: "res = snd (poll_loop v w (sd_id d) 0 False)" by simp_all
  have tr: "fst (run v w)
      = head_events v w r @ EUpdate (persist_fields w (sd_id d)) None # es @ closing w res"
    by (simp add: polling(2))
  have cnt: "filter is_poll (fst (run v w)) = filter is_poll es"
    by (simp add: tr polls_none)
  have 1: "length (filter is_poll (fst (run v w))) \<le> 120"
    using poll_loop_polls[of v w "sd_id d" 0 False] by (simp add: cnt es maxAttempts_def)
  have "sleep_first es" by (simp add: es sleep_first_loop)
  moreover have "sleep_first (closing w res)" by (rule sleep_first_no_polls) simp
  ultimately have "sleep_first (es @ closing w res)" by (rule sleep_first_append)
  then have "sleep_first (EUpdate (persist_fields w (sd_id d)) None # es @ closing w res)"
    by (intro sleep_first_Cons) simp_all
  moreover have "sleep_first (head_events v w r)" by (rule sleep_first_no_polls) simp
  ultimately have "sleep_first (fst (run v w))"
    unfolding tr by (intro sleep_first_append)
  then have 2: "\<forall>pre j r post. fst (run v w) = pre @ EPoll j r # post \<longrightarrow>
         (\<exists>pre' f. pre = pre' @ [ESleep 5000, EUpdate f None])"
    by (simp add: sleep_first_def)
  have 3: "snd (run v w) = Some TimeoutError
       \<and> last (fst (run v w)) = failure_write w TimeoutError
       \<and> written (last (fst (run v w))) ''status'' = Some (JStr ''Failed'')"
    if n: "length (filter is_poll (fst (run v w))) = 120"
      and p: "\<forall>j r. EPoll j r \<in> set (fst (run v w)) \<longrightarrow> in_progress r"
  proof -
    from n have "length (filter is_poll (fst (poll_loop v w (sd_id d) 0 False))) = maxAttempts - 0"
      by (simp add: cnt es maxAttempts_def)
    moreover from p have
      "\<forall>j r. EPoll j r \<in> set (fst (poll_loop v w (sd_id d) 0 False)) \<longrightarrow> in_progress r"
      by (simp add: tr es)
    ultimately have "res = Inr False"
      using poll_loop_exhausted[of False v w "sd_id d" 0] by (simp add: res)
    then have c: "caught res = Some TimeoutError" by (simp add: caught_def)
    with polling(2) have "snd (run v w) = Some TimeoutError" by simp
    moreover from c have "last (fst (run v w)) = failure_write w TimeoutError"
      unfolding tr by (rule last_closing)
    ultimately show ?thesis by simp
  qed
  from 1 2 3 show ?thesis by blast
qed

theorem C2_witness:
  "length (filter is_poll (fst (run Part000 stalled_world))) = 120
   \<and> snd (run Part000 stalled_world) = Some TimeoutError
   \<and> written (last (fst (run Part000 stalled_world))) ''status'' = Some (JStr ''Failed'')"
proof -
  let ?es = "fst (poll_loop Part000 stalled_world (Some ''job1'') 0 False)"
  let ?res = "snd (poll_loop Part000 stalled_world (Some ''job1'') 0 False)"
  have tr: "fst (run Part000 stalled_world) =
      head_events Part000 stalled_world scenario_record
        @ EUpdate (persist_fields stalled_world (Some ''job1'')) None # ?es
        @ closing stalled_world ?res"
    using run_polling[of stalled_world scenario_record _ "\<lparr>sd_id = Some ''job1''\<rparr>" Part000]
    by (simp add: accepted_def)
  have lp: "length (filter is_poll ?es) = 120
       \<and> (\<forall>j' r. EPoll j' r \<in> set ?es \<longrightarrow> in_progress r)"
    using poll_loop_stalled[of stalled_world Part000 "Some ''job1''" 0 False]
    by (simp add: maxAttempts_def)
  have n: "length (filter is_poll (fst (run Part000 stalled_world))) = 120"
    using lp by (simp add: tr polls_none)
  have p: "\<forall>j r. EPoll j r \<in> set (fst (run Part000 stalled_world)) \<longrightarrow> in_progress r"
    using lp by (auto simp: tr head_events_def closing_def split: option.splits)
  from C2_at_most_120_polls_each_after_sleep_then_timeout[of Part000 stalled_world] n p
  show ?thesis by blast
qed

text \<open>
  C3. In every run, each poll request comes after the update that writes \<^verbatim>\<open>job_id\<close>
  and \<^verbatim>\<open>status: 'Processing...'\<close>, that update was accepted by the store, and the id
  polled is the id written. When the submission succeeds (response \<^verbatim>\<open>ok\<close>, \<^verbatim>\<open>code\<close>
  200, \<^verbatim>\<open>data\<close> present) that update is issued with the \<^verbatim>\<open>data.id\<close> of the
  response, no poll request precedes it, and when the store rejects it no poll request
  follows it either.
\<close>

theorem C3_job_id_persisted_before_first_poll:
  "(\<forall>pre j r post. fst (run v w) = pre @ EPoll j r # post \<longrightarrow>
      (\<exists>pre' post'. pre = pre' @ EUpdate (persist_fields w j) None # post' \<and> no_polls pre'
         \<and> written (EUpdate (persist_fields w j) None) ''job_id'' = Some (str_val j)
         \<and> written (EUpdate (persist_fields w j) None) ''status'' = Some (JStr ''Processing...'')))
   \<and> (\<forall>p resp d. ESubmit p (Inr resp) \<in> set (fst (run v w)) \<longrightarrow>
        sr_ok resp \<longrightarrow> sb_code (sr_body resp) = Some 200 \<longrightarrow> sb_data (sr_body resp) = Some d \<longrightarrow>
        (\<exists>pre u post.
           fst (run v w) = pre @ EUpdate (persist_fields w (sd_id d)) u # post
         \<and> written (EUpdate (persist_fields w (sd_id d)) u) ''job_id'' = Some (str_val (sd_id d))
         \<and> written (EUpdate (persist_fields w (sd_id d)) u) ''status'' = Some (JStr ''Processing...'')
         \<and> no_polls pre
         \<and> (u \<noteq> None \<longrightarrow> no_polls post)))"
proof -
  have 1: "\<exists>pre' post'. pre = pre' @ EUpdate (persist_fields w j) None # post' \<and> no_polls pre'
         \<and> written (EUpdate (persist_fields w j) None) ''job_id'' = Some (str_val j)
         \<and> written (EUpdate (persist_fields w j) None) ''status'' = Some (JStr ''Processing...'')"
    if "fst (run v w) = pre @ EPoll j r # post" for pre j r post
  proof -
    from that obtain rec and d :: submit_data and es res pre' post' where
      lp: "poll_loop v w (sd_id d) 0 False = (es, res)"
      and es: "es = pre' @ EPoll j r # post'"
      and pre: "pre = head_events v w rec @ EUpdate (persist_fields w (sd_id d)) None # pre'"
      by (rule poll_in_run)
    from lp es have "EPoll j r \<in> set (fst (poll_loop v w (sd_id d) 0 False))" by simp
    then have "j = sd_id d" by (rule poll_job_id_loop)
    with pre show ?thesis by (intro exI[of _ "head_events v w rec"] exI[of _ pre']) simp
  qed
  have 2: "\<exists>pre u post.
           fst (run v w) = pre @ EUpdate (persist_fields w (sd_id d)) u # post
         \<and> written (EUpdate (persist_fields w (sd_id d)) u) ''job_id'' = Some (str_val (sd_id d))
         \<and> written (EUpdate (persist_fields w (sd_id d)) u) ''status'' = Some (JStr ''Processing...'')
         \<and> no_polls pre
         \<and> (u \<noteq> None \<longrightarrow> no_polls post)"
    if ev: "ESubmit p (Inr resp) \<in> set (fst (run v w))"
      and ok: "sr_ok resp" "sb_code (sr_body resp) = Some 200"
      and d: "sb_data (sr_body resp) = Some d" for p resp and d :: submit_data
  proof -
    from ok have ac: "accepted resp" by (simp add: accepted_def)
    from ev ac show ?thesis
    proof (cases rule: run_submit_accepted)
      case (no_data r)
      with d show ?thesis by simp
    next
      case (persist_rejected r d' m)
      with d have "fst (run v w) = head_events v w r
          @ EUpdate (persist_fields w (sd_id d)) (Some m) # [failure_write w (ExternalError m)]"
        by simp
      then show ?thesis by (intro exI conjI) (assumption, simp_all)
    next
      case (polling r d' es res)
      with d have "fst (run v w) = head_events v w r
          @ EUpdate (persist_fields w (sd_id d)) None # (es @ closing w res)"
        by simp
      then show ?thesis by (intro exI conjI) (assumption, simp_all)
    qed
  qed
  from 1 2 show ?thesis by blast
qed

theorem C3_witness:
  "ESubmit (submitPayload Part000 scenario_record) (submit_result scenario_world)
      \<in> set (fst (run Part000 scenario_world))
   \<and> (\<exists>pre u post. fst (run Part000 scenario_world)
         = pre @ EUpdate (persist_fields scenario_world (Some ''job1'')) u # post
       \<and> written (EUpdate (persist_fields scenario_world (Some ''job1'')) u) ''job_id''
           = Some (JStr ''job1'')
       \<and> no_polls pre)
   \<and> (\<exists>pre post pre' post'. fst (run Part000 scenario_world)
         = pre @ EPoll (Some ''job1'') (poll_result scenario_world 1) # post
       \<and> pre = pre' @ EUpdate (persist_fields scenario_world (Some ''job1'')) None # post'
       \<and> no_polls pre')"
proof -
  let ?resp = "\<lparr>sr_ok = True,
     sr_body = \<lparr>sb_code = Some 200, sb_message = None, sb_data = Some \<lparr>sd_id = Some ''job1''\<rparr>\<rparr>\<rparr>"
  let ?pre = "head_events Part000 scenario_world scenario_record
       @ EUpdate (persist_fields scenario_world (Some ''job1'')) None
       # progress_prefix scenario_world (Some ''job1'') 1"
  let ?post = "download_events Part000 scenario_world ''http://out/video.mp4''
       @ [EUpdate (success_fields Part000 scenario_world (elapsed_at scenario_world 1)
            ''http://out/video.mp4'') None]"
  have ev: "ESubmit (submitPayload Part000 scenario_record) (Inr ?resp)
      \<in> set (fst (run Part000 scenario_world))"
    using run_scenario_submit[of Part000] by simp
  have tr: "fst (run Part000 scenario_world)
      = ?pre @ EPoll (Some ''job1'') (poll_result scenario_world 1) # ?post"
    by (simp add: run_scenario)
  note c3 = C3_job_id_persisted_before_first_poll[of Part000 scenario_world]
  have ok: "sr_ok ?resp" "sb_code (sr_body ?resp) = Some 200"
    "sb_data (sr_body ?resp) = Some \<lparr>sd_id = Some ''job1''\<rparr>" by simp_all
  from conjunct2[OF c3, rule_format, OF ev ok] obtain pre u post where
    "fst (run Part000 scenario_world)
       = pre @ EUpdate (persist_fields scenario_world (Some ''job1'')) u # post"
    "no_polls pre"
    by auto
  then have a: "\<exists>pre u post. fst (run Part000 scenario_world)
         = pre @ EUpdate (persist_fields scenario_world (Some ''job1'')) u # post
       \<and> written (EUpdate (persist_fields scenario_world (Some ''job1'')) u) ''job_id''
           = Some (JStr ''job1'')
       \<and> no_polls pre"
    by (auto simp: str_val_def)
  from conjunct1[OF c3, rule_format, OF tr] have "\<exists>pre' post'.
         ?pre = pre' @ EUpdate (persist_fields scenario_world (Some ''job1'')) None # post'
       \<and> no_polls pre'"
    by blast
  with tr have b: "\<exists>pre post pre' post'. fst (run Part000 scenario_world)
         = pre @ EPoll (Some ''job1'') (poll_result scenario_world 1) # post
       \<and> pre = pre' @ EUpdate (persist_fields scenario_world (Some ''job1'')) None # post'
       \<and> no_polls pre'"
    by blast
  from ev a b show ?thesis by simp
qed

text \<open>
  C4. For every record in which the first attachment URL of \<^verbatim>\<open>input_image\<close> or of
  \<^verbatim>\<open>input_video\<close> is absent, the run consists of the \<^verbatim>\<open>find\<close> call and the
  \<^verbatim>\<open>status: 'Failed'\<close> update of the \<^verbatim>\<open>catch\<close> block: the caught error is one of
  the two missing-input errors, and no submission request is sent. The final update is
  best effort in the source, so "ends with status Failed" is the last call issued.
\<close>

theorem C4_missing_input_fails_without_submission:
  assumes "find_result w = Inr r"
    and "first_url (input_image r) = None \<or> first_url (input_video r) = None"
  shows "(\<exists>m. (m = ''No input image found'' \<or> m = ''No input video found'')
            \<and> run v w = ([EFind (Inr r), failure_write w (ValidationError m)],
                          Some (ValidationError m)))
       \<and> written (last (fst (run v w))) ''status'' = Some (JStr ''Failed'')
       \<and> (\<forall>ev \<in> set (fst (run v w)). \<not> is_submit ev)"
proof -
  from assms(2) have "\<not> valid_inputs r" by (auto simp: valid_inputs_def truthy_def)
  with assms(1) show ?thesis
    by (cases rule: run_cases[of w v]) auto
qed

theorem C4_witness:
  "find_result (scenario_world\<lparr>find_result := Inr (scenario_record\<lparr>input_video := Some []\<rparr>)\<rparr>)
     = Inr (scenario_record\<lparr>input_video := Some []\<rparr>)
   \<and> first_url (input_video (scenario_record\<lparr>input_video := Some []\<rparr>)) = None
   \<and> written (last (fst (run Part000
        (scenario_world\<lparr>find_result := Inr (scenario_record\<lparr>input_video := Some []\<rparr>)\<rparr>))))
        ''status'' = Some (JStr ''Failed'')"
proof -
  let ?r = "scenario_record\<lparr>input_video := Some []\<rparr>"
  let ?w = "scenario_world\<lparr>find_result := Inr ?r\<rparr>"
  have f: "find_result ?w = Inr ?r" by simp
  have m: "first_url (input_image ?r) = None \<or> first_url (input_video ?r) = None"
    by (simp add: first_url_def)
  from C4_missing_input_fails_without_submission[OF f m, of Part000] f show ?thesis
    by (simp add: first_url_def)
qed




text \<open>
  C6, as stated, fails: the progress update is awaited with no \<^verbatim>\<open>try\<close> of its own, so
  its rejection goes to the top-level \<^verbatim>\<open>catch\<close>. With the store rejecting the first
  progress update the run issues no poll request and ends in failure, while the same
  world with that update accepted completes.
\<close>

theorem C6_counterexample:
  "flaky_store_world = scenario_world\<lparr>update_result :=
       (update_result scenario_world)(Progress 1 := Some ''RATE_LIMIT_REACHED'')\<rparr>
   \<and> EUpdate (progress_fields (Some ''job1'') 1 (elapsed_at flaky_store_world 1))
        (Some ''RATE_LIMIT_REACHED'') \<in> set (fst (run Part000 flaky_store_world))
   \<and> no_polls (fst (run Part000 flaky_store_world))
   \<and> snd (run Part000 flaky_store_world) = Some (ExternalError ''RATE_LIMIT_REACHED'')
   \<and> written (last (fst (run Part000 flaky_store_world))) ''status'' = Some (JStr ''Failed'')
   \<and> snd (run Part000 scenario_world) = None
   \<and> written (last (fst (run Part000 scenario_world))) ''status'' = Some (JStr ''Completed'')"
  by (simp add: run_flaky_store run_scenario head_events_def)
     (simp add: flaky_store_world_def)

text \<open>
  C6, amended. A rejected progress update inside the poll loop aborts the run: the
  rejection is the caught error, the only call issued after it is the
  \<^verbatim>\<open>status: 'Failed'\<close> update of the \<^verbatim>\<open>catch\<close> block, and so no poll request follows.
\<close>

theorem C6_rejected_progress_update_aborts_run:
  assumes "EUpdate (progress_fields j a el) (Some m) \<in> set (fst (run v w))"
  shows "snd (run v w) = Some (ExternalError m)
       \<and> (\<exists>pre. fst (run v w)
             = pre @ [EUpdate (progress_fields j a el) (Some m), failure_write w (ExternalError m)])
       \<and> written (last (fst (run v w))) ''status'' = Some (JStr ''Failed'')"
proof (cases rule: run_cases[of w v])
  case (polling r resp d es res)
  from assms polling(9) have "EUpdate (progress_fields j a el) (Some m) \<in> set es"
    by (auto simp: head_events_def closing_def split: option.splits)
  from rejected_update_in_loop[OF polling(8) this] obtain pre where
    res: "res = Inl (ExternalError m)" and es: "es = pre @ [EUpdate (progress_fields j a el) (Some m)]"
    by blast
  from res have cl: "closing w res = [failure_write w (ExternalError m)]"
    and ca: "caught res = Some (ExternalError m)"
    by (simp_all add: closing_def caught_def)
  have "fst (run v w) = (head_events v w r @ EUpdate (persist_fields w (sd_id d)) None # pre)
      @ [EUpdate (progress_fields j a el) (Some m), failure_write w (ExternalError m)]"
    by (simp add: polling(9) es cl)
  then have "\<exists>pre. fst (run v w)
             = pre @ [EUpdate (progress_fields j a el) (Some m), failure_write w (ExternalError m)]"
    by blast
  moreover then have "last (fst (run v w)) = failure_write w (ExternalError m)" by auto
  ultimately show ?thesis using ca polling(9) by simp
qed (use assms in \<open>auto simp: head_events_def\<close>)

theorem C6_witness:
  "EUpdate (progress_fields (Some ''job1'') 1 (elapsed_at flaky_store_world 1))
        (Some ''RATE_LIMIT_REACHED'') \<in> set (fst (run ServerJs flaky_store_world))
   \<and> snd (run ServerJs flaky_store_world) = Some (ExternalError ''RATE_LIMIT_REACHED'')
   \<and> written (last (fst (run ServerJs flaky_store_world))) ''status'' = Some (JStr ''Failed'')"
proof -
  have ev: "EUpdate (progress_fields (Some ''job1'') 1 (elapsed_at flaky_store_world 1))
        (Some ''RATE_LIMIT_REACHED'') \<in> set (fst (run ServerJs flaky_store_world))"
    by (simp add: run_flaky_store)
  from C6_rejected_progress_update_aborts_run[OF ev] ev show ?thesis by blast
qed

text \<open>
  C7. The claim asks that an accepted submission whose body has no \<^verbatim>\<open>data.id\<close> fail
  before anything is written. The handler uses \<^verbatim>\<open>const jobId = submitResult.data.id\<close>
  unchecked, while every other extracted value (\<^verbatim>\<open>inputImage\<close>, \<^verbatim>\<open>inputVideo\<close>,
  \<^verbatim>\<open>videoUrl\<close>) is followed by its \<^verbatim>\<open>if (!x) throw\<close>. At the input below
  (both inputs present, response \<^verbatim>\<open>ok\<close>, body \<^verbatim>\<open>{code: 200, data: {}}\<close>) the run
  issues the update with \<^verbatim>\<open>job_id: undefined\<close> and \<^verbatim>\<open>status: 'Processing...'\<close>,
  sleeps, writes the progress update and polls with the undefined id; the error it ends
  with is the one of that poll, not a submission error.
\<close>

theorem C7_missing_job_id_is_not_checked:
  "submit_result idless_world
     = Inr \<lparr>sr_ok = True,
         sr_body = \<lparr>sb_code = Some 200, sb_message = None, sb_data = Some \<lparr>sd_id = None\<rparr>\<rparr>\<rparr>
   \<and> run Part000 idless_world =
       ([EFind (Inr scenario_record),
         EUpdate (presubmit_fields Part000 idless_world scenario_record) None,
         ESubmit (submitPayload Part000 scenario_record) (submit_result idless_world),
         EUpdate (persist_fields idless_world None) None,
         ESleep 5000,
         EUpdate (progress_fields None 1 (elapsed_at idless_world 1)) None,
         EPoll None (Inl ''invalid json response body''),
         failure_write idless_world (ExternalError ''invalid json response body'')],
        Some (ExternalError ''invalid json response body''))
   \<and> persist_fields idless_world None =
       [(''job_id'', JUndefined), (''status'', JStr ''Processing...''),
        (''error_log'', JStr (''Job ID: undefined'' @ nl
           @ ''Submitted at 2024-01-01T00:00:00.000Z''))]
   \<and> run ServerJs idless_world =
       ([EFind (Inr scenario_record),
         EUpdate (presubmit_fields ServerJs idless_world scenario_record) None,
         ESubmit (submitPayload ServerJs scenario_record) (submit_result idless_world),
         EUpdate (persist_fields idless_world None) None,
         ESleep 5000,
         EUpdate (progress_fields None 1 (elapsed_at idless_world 1)) None,
         EPoll None (Inl ''invalid json response body''),
         failure_write idless_world (ExternalError ''invalid json response body'')],
        Some (ExternalError ''invalid json response body''))"
  by (simp add: run_idless head_events_def progress_prefix_def persist_fields_def str_val_def
      show_str_def)
     (simp add: idless_world_def scenario_world_def)

text \<open>
  C8. In every run at most one update has an \<^verbatim>\<open>output_video\<close> key; such an update is
  the one of the success path (the run holds a poll answered \<^verbatim>\<open>completed\<close> whose first
  output is the non-empty URL written, and the update also writes
  \<^verbatim>\<open>status: 'Completed'\<close>); every other update of the run has its keys among
  \<^verbatim>\<open>status\<close>, \<^verbatim>\<open>error_log\<close> and \<^verbatim>\<open>job_id\<close>.
\<close>

theorem C8_output_video_written_at_most_once_only_on_success:
  "length (filter writes_output_video (fst (run v w))) \<le> 1
   \<and> (\<forall>f u. EUpdate f u \<in> set (fst (run v w)) \<longrightarrow>
         (if ''output_video'' \<in> keys f
          then success_write v w (fst (run v w)) f
             \<and> written (EUpdate f u) ''status'' = Some (JStr ''Completed'')
          else keys f \<subseteq> {''status'', ''error_log'', ''job_id''}))"
proof (cases rule: run_cases[of w v])
  case (polling r resp d es res)
  have es: "es = fst (poll_loop v w (sd_id d) 0 False)" by (simp add: polling(8))
  have tr: "fst (run v w)
      = head_events v w r @ EUpdate (persist_fields w (sd_id d)) None # es @ closing w res"
    by (simp add: polling(9))
  have 1: "length (filter writes_output_video (fst (run v w))) \<le> 1"
    using video_writes_loop[of v w "sd_id d" 0 False] by (simp add: tr es)
  have 2: "if ''output_video'' \<in> keys f
          then success_write v w (fst (run v w)) f
             \<and> written (EUpdate f u) ''status'' = Some (JStr ''Completed'')
          else keys f \<subseteq> {''status'', ''error_log'', ''job_id''}"
    if ev: "EUpdate f u \<in> set (fst (run v w))" for f u
  proof (cases "EUpdate f u \<in> set es")
    case False
    with ev have "f = presubmit_fields v w r \<or> f = persist_fields w (sd_id d)
        \<or> (\<exists>e. f = failure_fields w e)"
      by (auto simp: tr head_events_def closing_def split: option.splits)
    then show ?thesis by auto
  next
    case True
    show ?thesis
    proof (cases "''output_video'' \<in> keys f")
      case False
      with True update_in_loop_keys[of f u v w "sd_id d" 0 False] show ?thesis
        by (simp add: es)
    next
      case k: True
      from True k video_write_loop[of f u v w "sd_id d" 0 False]
      have "success_write v w es f" by (simp add: es)
      then have sw: "success_write v w (fst (run v w)) f"
        by (rule success_write_mono) (auto simp: tr)
      then have "written (EUpdate f u) ''status'' = Some (JStr ''Completed'')"
        by (auto simp: success_write_def)
      with k sw show ?thesis by simp
    qed
  qed
  from 1 2 show ?thesis by blast
qed (auto simp: head_events_def)

theorem C8_witness:
  "EUpdate (success_fields Part000 scenario_world (elapsed_at scenario_world 1)
       ''http://out/video.mp4'') None \<in> set (fst (run Part000 scenario_world))
   \<and> ''output_video'' \<in> keys (success_fields Part000 scenario_world (elapsed_at scenario_world 1)
       ''http://out/video.mp4'')
   \<and> success_write Part000 scenario_world (fst (run Part000 scenario_world))
        (success_fields Part000 scenario_world (elapsed_at scenario_world 1) ''http://out/video.mp4'')
   \<and> EUpdate (persist_fields scenario_world (Some ''job1'')) None
        \<in> set (fst (run Part000 scenario_world))
   \<and> ''output_video'' \<notin> keys (persist_fields scenario_world (Some ''job1''))
   \<and> keys (persist_fields scenario_world (Some ''job1'')) \<subseteq> {''status'', ''error_log'', ''job_id''}
   \<and> length (filter writes_output_video (fst (run Part000 scenario_world))) \<le> 1"
proof -
  let ?s = "success_fields Part000 scenario_world (elapsed_at scenario_world 1)
       ''http://out/video.mp4''"
  let ?p = "persist_fields scenario_world (Some ''job1'')"
  have e1: "EUpdate ?s None \<in> set (fst (run Part000 scenario_world))"
    and e2: "EUpdate ?p None \<in> set (fst (run Part000 scenario_world))"
    by (simp_all add: run_scenario)
  have k1: "''output_video'' \<in> keys ?s" and k2: "''output_video'' \<notin> keys ?p" by simp_all
  note c8 = C8_output_video_written_at_most_once_only_on_success[of Part000 scenario_world]
  from c8 e1 k1 have 1: "success_write Part000 scenario_world (fst (run Part000 scenario_world)) ?s"
    by (auto split: if_splits)
  from c8 e2 k2 have 2: "keys ?p \<subseteq> {''status'', ''error_log'', ''job_id''}"
    by (auto split: if_splits)
  from c8 have 3: "length (filter writes_output_video (fst (run Part000 scenario_world))) \<le> 1"
    by (rule conjunct1)
  from e1 e2 k1 k2 1 2 3 show ?thesis by blast
qed

text \<open>
  C9. The payload built from a record has a \<^verbatim>\<open>prompt\<close> key exactly when the record's
  \<^verbatim>\<open>prompt\<close> is a non-empty string, and then carries that string; and the payload of
  every submission request of a run is the one built from the record that was found.
\<close>

theorem C9_prompt_key_iff_prompt_non_empty:
  "((''prompt'' \<in> keys (submitPayload v r)) = (\<exists>t. prompt r = Some t \<and> t \<noteq> []))
   \<and> (\<forall>t. prompt r = Some t \<longrightarrow> t \<noteq> [] \<longrightarrow>
          map_of (submitPayload v r) ''prompt'' = Some (JStr t))
   \<and> (prompt r = None \<or> prompt r = Some [] \<longrightarrow> map_of (submitPayload v r) ''prompt'' = None)
   \<and> (\<forall>p s. ESubmit p s \<in> set (fst (run v w)) \<longrightarrow>
          (\<exists>r'. find_result w = Inr r' \<and> p = submitPayload v r'))"
proof -
  have "\<forall>p s. ESubmit p s \<in> set (fst (run v w)) \<longrightarrow>
          (\<exists>r'. find_result w = Inr r' \<and> p = submitPayload v r')"
    using run_submit[of _ _ v w] by blast
  then show ?thesis
    by (cases "prompt r") (auto simp: submitPayload_def keys_def or_else_def)
qed

theorem C9_witness:
  "prompt (scenario_record\<lparr>prompt := Some ''dance''\<rparr>) = Some ''dance''
   \<and> map_of (submitPayload Part000 (scenario_record\<lparr>prompt := Some ''dance''\<rparr>)) ''prompt''
       = Some (JStr ''dance'')
   \<and> prompt (scenario_record\<lparr>prompt := Some []\<rparr>) = Some []
   \<and> ''prompt'' \<notin> keys (submitPayload Part000 (scenario_record\<lparr>prompt := Some []\<rparr>))
   \<and> ESubmit (submitPayload Part000 scenario_record) (submit_result scenario_world)
       \<in> set (fst (run Part000 scenario_world))
   \<and> find_result scenario_world = Inr scenario_record"
proof -
  have 1: "map_of (submitPayload Part000 (scenario_record\<lparr>prompt := Some ''dance''\<rparr>)) ''prompt''
       = Some (JStr ''dance'')"
    using C9_prompt_key_iff_prompt_non_empty[of Part000 "scenario_record\<lparr>prompt := Some ''dance''\<rparr>"]
    by simp
  have 2: "''prompt'' \<notin> keys (submitPayload Part000 (scenario_record\<lparr>prompt := Some []\<rparr>))"
    using C9_prompt_key_iff_prompt_non_empty[of Part000 "scenario_record\<lparr>prompt := Some []\<rparr>"]
    by simp
  from 1 2 run_scenario_submit[of Part000] show ?thesis by simp
qed

text \<open>
  C10. A record whose \<^verbatim>\<open>seed\<close> is absent or 0 is submitted with seed -1, any other
  seed is forwarded unchanged, and so no record is ever submitted with seed 0.
\<close>

theorem C10_seed_zero_or_absent_becomes_minus_one:
  "(seed r = None \<or> seed r = Some 0 \<longrightarrow> map_of (submitPayload v r) ''seed'' = Some (JNum (- 1)))
   \<and> (\<forall>n. seed r = Some n \<longrightarrow> n \<noteq> 0 \<longrightarrow> map_of (submitPayload v r) ''seed'' = Some (JNum n))
   \<and> map_of (submitPayload v r) ''seed'' \<noteq> Some (JNum 0)
   \<and> (\<forall>p s. ESubmit p s \<in> set (fst (run v w)) \<longrightarrow>
          (\<exists>r'. find_result w = Inr r' \<and> p = submitPayload v r'
             \<and> map_of p ''seed'' \<noteq> Some (JNum 0)))"
proof -
  have seed: "map_of (submitPayload v r') ''seed'' = Some (JNum (seed_or (seed r')))" for r'
    by (simp add: submitPayload_def)
  have "\<forall>p s. ESubmit p s \<in> set (fst (run v w)) \<longrightarrow>
          (\<exists>r'. find_result w = Inr r' \<and> p = submitPayload v r'
             \<and> map_of p ''seed'' \<noteq> Some (JNum 0))"
  proof (intro allI impI)
    fix p s
    assume "ESubmit p s \<in> set (fst (run v w))"
    from run_submit[OF this] obtain r' where "find_result w = Inr r'" "p = submitPayload v r'"
      by blast
    moreover have "map_of (submitPayload v r') ''seed'' \<noteq> Some (JNum 0)"
      by (cases "seed r'") (simp_all add: seed seed_or_def)
    ultimately show "\<exists>r'. find_result w = Inr r' \<and> p = submitPayload v r'
             \<and> map_of p ''seed'' \<noteq> Some (JNum 0)"
      by blast
  qed
  then show ?thesis
    by (cases "seed r") (auto simp: seed seed_or_def)
qed

theorem C10_witness:
  "seed (scenario_record\<lparr>seed := Some 0\<rparr>) = Some 0
   \<and> map_of (submitPayload ServerJs (scenario_record\<lparr>seed := Some 0\<rparr>)) ''seed''
       = Some (JNum (- 1))
   \<and> seed scenario_record = Some 42
   \<and> map_of (submitPayload ServerJs scenario_record) ''seed'' = Some (JNum 42)"
proof -
  have 1: "map_of (submitPayload ServerJs (scenario_record\<lparr>seed := Some 0\<rparr>)) ''seed''
       = Some (JNum (- 1))"
    using C10_seed_zero_or_absent_becomes_minus_one[of "scenario_record\<lparr>seed := Some 0\<rparr>" ServerJs]
    by simp
  have s: "seed scenario_record = Some 42" by (simp add: scenario_record_def)
  have 2: "map_of (submitPayload ServerJs scenario_record) ''seed'' = Some (JNum 42)"
    using C10_seed_zero_or_absent_becomes_minus_one[of scenario_record ServerJs] s
    by simp
  from 1 2 s show ?thesis by simp
qed

end
